theory Spec2Isabelle
  imports Complex_Main
begin

section \<open>TLogs/TlogToCSV.py: telemetry logs to one aligned table\<close>

text \<open>
  The script reads MAVLink telemetry logs with pymavlink, builds one pandas DataFrame per
  log (one row per message of the types SYS_STATUS, VFR_HUD and ATTITUDE), forward-fills
  it, drops the rows that still have a missing cell, keeps the VFR_HUD rows, and
  concatenates the per-log tables into \<^verbatim>\<open>master_drone_dataset.csv\<close>.

  pymavlink and pandas are libraries outside the repository. Their behaviour is taken
  from their documentation: a log is the sequence of results of \<^verbatim>\<open>recv_match\<close>,
  and a DataFrame is a list of column names with a list of labelled rows.
\<close>

subsection \<open>Values, dictionaries and messages\<close>

text \<open>
  A cell of a DataFrame, and a value of a row dictionary. \<open>NaN\<close> is pandas' missing
  value: \<^verbatim>\<open>fillna\<close> and \<^verbatim>\<open>dropna\<close> treat a cell that was never
  set and a float payload that is NaN in the same way. Numbers are exact (the rounding of
  \<^verbatim>\<open>/ 1000.0\<close> is not represented).
\<close>

datatype val = Num real | Str string | NaN

text \<open>A Python float read from a message: a number or NaN.\<close>

datatype pyfloat = Float real | Nan

fun of_float :: "pyfloat \<Rightarrow> val" where
  "of_float (Float x) = Num x"
| "of_float Nan = NaN"

text \<open>A Python dict with string keys, in insertion order.\<close>

type_synonym dict = "(string \<times> val) list"

definition getcell :: "dict \<Rightarrow> string \<Rightarrow> val" where
  "getcell d c = (case map_of d c of Some v \<Rightarrow> v | None \<Rightarrow> NaN)"

text \<open>
  The decoded messages. The arguments are the attributes the script reads:
  \<^item> \<open>SYS_STATUS _timestamp voltage_battery current_battery battery_remaining\<close>
    (the three payload fields are integers in MAVLink);
  \<^item> \<open>VFR_HUD _timestamp throttle alt groundspeed\<close> (throttle is an integer);
  \<^item> \<open>ATTITUDE _timestamp roll pitch\<close>;
  \<^item> \<open>OTHER type _timestamp\<close>: a message of any other type (heartbeats, bad data, ...).
  \<open>_timestamp\<close> of a log message is the log's integer microsecond stamp scaled to
  seconds, hence a number.
\<close>

datatype mavlink_message =
    SYS_STATUS real int int int
  | VFR_HUD real int pyfloat pyfloat
  | ATTITUDE real pyfloat pyfloat
  | OTHER string real

fun get_type :: "mavlink_message \<Rightarrow> string" where
  "get_type (SYS_STATUS ts vb cb br) = ''SYS_STATUS''"
| "get_type (VFR_HUD ts th al gs) = ''VFR_HUD''"
| "get_type (ATTITUDE ts ro pt) = ''ATTITUDE''"
| "get_type (OTHER ty ts) = ty"

fun timestamp :: "mavlink_message \<Rightarrow> real" where
  "timestamp (SYS_STATUS ts vb cb br) = ts"
| "timestamp (VFR_HUD ts th al gs) = ts"
| "timestamp (ATTITUDE ts ro pt) = ts"
| "timestamp (OTHER ty ts) = ts"

text \<open>
  Lines 27 to 42: the row dictionary of one message. The keys written are distinct, so
  the dictionary's insertion order is the order of the assignments.
\<close>

fun make_row :: "mavlink_message \<Rightarrow> dict" where
  "make_row (SYS_STATUS ts vb cb br) =
     [(''timestamp'', Num ts), (''type'', Str ''SYS_STATUS''),
      (''voltage'', Num (real_of_int vb / 1000)),
      (''current'', Num (real_of_int cb / 100)),
      (''battery_remaining'', Num (real_of_int br))]"
| "make_row (VFR_HUD ts th al gs) =
     [(''timestamp'', Num ts), (''type'', Str ''VFR_HUD''),
      (''throttle'', Num (real_of_int th)),
      (''altitude'', of_float al),
      (''groundspeed'', of_float gs)]"
| "make_row (ATTITUDE ts ro pt) =
     [(''timestamp'', Num ts), (''type'', Str ''ATTITUDE''),
      (''roll'', of_float ro),
      (''pitch'', of_float pt)]"
| "make_row (OTHER ty ts) =
     [(''timestamp'', Num ts), (''type'', Str ty)]"

subsection \<open>The decoder\<close>

text \<open>
  Python exceptions. \<open>Exception\<close> is whatever pymavlink raises, \<open>KeyError\<close> is
  pandas' error for a column that does not exist.
\<close>

datatype exn = Exception string | KeyError string

text \<open>
  An opened log is the list of what the decoder produces next: a message, or an exception
  raised while decoding. The end of the list is the end of the log, where
  \<^verbatim>\<open>recv_match(blocking=False)\<close> returns \<^verbatim>\<open>None\<close>.
\<close>

datatype recv = Got mavlink_message | Raises string

text \<open>
  \<^verbatim>\<open>mlog.recv_match(type=tys, blocking=False)\<close>: the next message whose type is
  in \<open>tys\<close>, skipping the others, together with the rest of the log.
\<close>

fun recv_match :: "string list \<Rightarrow> recv list \<Rightarrow> exn + (mavlink_message option \<times> recv list)" where
  "recv_match tys [] = Inr (None, [])"
| "recv_match tys (Raises e # rest) = Inl (Exception e)"
| "recv_match tys (Got m # rest) =
     (if get_type m \<in> set tys then Inr (Some m, rest) else recv_match tys rest)"

definition tracked_types :: "string list" where
  "tracked_types = [''SYS_STATUS'', ''VFR_HUD'', ''ATTITUDE'']"

lemma recv_match_shorter:
  "recv_match tys mlog = Inr (Some m, mlog') \<Longrightarrow> length mlog' < length mlog"
proof (induction mlog)
  case Nil
  then show ?case by simp
next
  case (Cons r mlog)
  then show ?case by (cases r) (auto split: if_splits)
qed

text \<open>Lines 18 to 44: the \<^verbatim>\<open>while True\<close> loop, with \<open>data_rows\<close> as accumulator.\<close>

function read_loop :: "recv list \<Rightarrow> dict list \<Rightarrow> exn + dict list" where
  "read_loop mlog data_rows =
     (case recv_match tracked_types mlog of
        Inl e \<Rightarrow> Inl e
      | Inr (None, mlog') \<Rightarrow> Inr data_rows
      | Inr (Some msg, mlog') \<Rightarrow> read_loop mlog' (data_rows @ [make_row msg]))"
  by pat_completeness auto
termination
  by (relation "measure (\<lambda>(mlog, data_rows). length mlog)")
     (auto dest: recv_match_shorter)

declare read_loop.simps [simp del]

subsection \<open>pandas\<close>

text \<open>
  A DataFrame: the column names in order, and the rows in order, each with its index
  label and one cell per column.
\<close>

record dataframe =
  columns :: "string list"
  rows :: "(nat \<times> val list) list"

text \<open>The distinct elements of a list in order of first appearance.\<close>

fun unique :: "'a list \<Rightarrow> 'a list" where
  "unique [] = []"
| "unique (x # xs) = x # filter (\<lambda>y. y \<noteq> x) (unique xs)"

text \<open>The cell of row \<open>r\<close> in column \<open>c\<close> of a frame with columns \<open>cols\<close>.\<close>

definition cell :: "string list \<Rightarrow> val list \<Rightarrow> string \<Rightarrow> val" where
  "cell cols r c = getcell (zip cols r) c"

text \<open>
  \<^verbatim>\<open>pd.DataFrame(data)\<close> for a list of dicts: the columns are the keys in order of
  first appearance, a key a dict lacks gives NaN, the index is \<open>0, 1, ...\<close>
\<close>

definition DataFrame :: "dict list \<Rightarrow> dataframe" where
  "DataFrame data =
     (let cols = unique (concat (map (map fst) data))
      in \<lparr>columns = cols, rows = enumerate 0 (map (\<lambda>d. map (getcell d) cols) data)\<rparr>)"

text \<open>
  \<^verbatim>\<open>df.fillna(method='ffill')\<close>: down each column, a NaN cell takes the value of
  the nearest row above whose cell is not NaN, and stays NaN when there is none (in the
  pandas versions that accept the \<^verbatim>\<open>method\<close> argument). \<open>prev\<close> is the
  filled row above.
\<close>

fun ffill :: "val list \<Rightarrow> (nat \<times> val list) list \<Rightarrow> (nat \<times> val list) list" where
  "ffill prev [] = []"
| "ffill prev ((i, r) # rs) =
     (let r' = map2 (\<lambda>p v. if v = NaN then p else v) prev r
      in (i, r') # ffill r' rs)"

definition fillna_ffill :: "dataframe \<Rightarrow> dataframe" where
  "fillna_ffill df = df\<lparr>rows := ffill (replicate (length (columns df)) NaN) (rows df)\<rparr>"

text \<open>\<^verbatim>\<open>df.dropna()\<close>: the rows without a NaN cell.\<close>

definition dropna :: "dataframe \<Rightarrow> dataframe" where
  "dropna df = df\<lparr>rows := filter (\<lambda>(i, r). NaN \<notin> set r) (rows df)\<rparr>"

text \<open>\<^verbatim>\<open>df[df[c] == v]\<close>: the rows whose cell in column \<open>c\<close> equals \<open>v\<close>.\<close>

definition select_eq :: "string \<Rightarrow> val \<Rightarrow> dataframe \<Rightarrow> exn + dataframe" where
  "select_eq c v df =
     (if c \<notin> set (columns df) then Inl (KeyError c)
      else Inr (df\<lparr>rows := filter (\<lambda>(i, r). cell (columns df) r c = v) (rows df)\<rparr>))"

text \<open>\<^verbatim>\<open>df.drop(c, axis=1)\<close>\<close>

definition drop_column :: "string \<Rightarrow> dataframe \<Rightarrow> exn + dataframe" where
  "drop_column c df =
     (if c \<notin> set (columns df) then Inl (KeyError c)
      else Inr \<lparr>columns = filter (\<lambda>k. k \<noteq> c) (columns df),
                rows = map (\<lambda>(i, r). (i, map snd (filter (\<lambda>(k, v). k \<noteq> c) (zip (columns df) r))))
                         (rows df)\<rparr>)"

text \<open>
  \<^verbatim>\<open>df[c] = v\<close> for a scalar \<open>v\<close>: overwrites the column when it exists, appends
  it as the last column otherwise.
\<close>

definition set_column :: "string \<Rightarrow> val \<Rightarrow> dataframe \<Rightarrow> dataframe" where
  "set_column c v df =
     (if c \<in> set (columns df)
      then df\<lparr>rows := map (\<lambda>(i, r). (i, map (\<lambda>(k, x). if k = c then v else x) (zip (columns df) r)))
                         (rows df)\<rparr>
      else \<lparr>columns = columns df @ [c], rows = map (\<lambda>(i, r). (i, r @ [v])) (rows df)\<rparr>)"

text \<open>\<^verbatim>\<open>df.empty\<close>\<close>

definition empty :: "dataframe \<Rightarrow> bool" where
  "empty df \<longleftrightarrow> rows df = [] \<or> columns df = []"

text \<open>
  \<^verbatim>\<open>pd.concat(dfs, ignore_index=True)\<close> for a non-empty list: the columns are the
  frames' columns in order of first appearance, the rows are the frames' rows in order, a
  row has NaN in a column its frame lacks, and the index is renumbered from 0.
\<close>

definition reindex :: "string list \<Rightarrow> string list \<Rightarrow> val list \<Rightarrow> val list" where
  "reindex cols cols' r = map (cell cols r) cols'"

definition concat_frames :: "dataframe list \<Rightarrow> dataframe" where
  "concat_frames dfs =
     (let cols = unique (concat (map columns dfs))
      in \<lparr>columns = cols,
          rows = enumerate 0
                   (concat (map (\<lambda>df. map (\<lambda>(i, r). reindex (columns df) cols r) (rows df)) dfs))\<rparr>)"

text \<open>\<^verbatim>\<open>df.head()\<close>: the first five rows.\<close>

definition head :: "dataframe \<Rightarrow> dataframe" where
  "head df = df\<lparr>rows := take 5 (rows df)\<rparr>"

subsection \<open>The script\<close>

text \<open>\<^verbatim>\<open>os.path.basename\<close> (POSIX): what follows the last slash.\<close>

definition basename :: "string \<Rightarrow> string" where
  "basename p = rev (takeWhile (\<lambda>c. c \<noteq> CHR ''/'') (rev p))"

text \<open>What the script prints, one constructor per \<^verbatim>\<open>print\<close>.\<close>

datatype line =
    Parsing string
  | Error_opening string exn
  | No_usable_data string
  | No_tlog_files
  | Found nat
  | Banner
  | Done_processed nat
  | Total_data_points nat
  | Saved_to string
  | Head dataframe
  | Could_not_process

text \<open>
  The file system as \<^verbatim>\<open>mavutil.mavlink_connection\<close> sees it: a path either fails
  to open with an exception or gives a log.
\<close>

type_synonym files = "string \<Rightarrow> exn + recv list"

text \<open>
  Lines 6 to 64. The result is what was printed, and either the uncaught exception or the
  returned value (\<open>None\<close> or a DataFrame).
\<close>

definition process_single_tlog :: "files \<Rightarrow> string \<Rightarrow> line list \<times> (exn + dataframe option)" where
  "process_single_tlog fs filename =
     (case fs filename of
        Inl e \<Rightarrow> ([Parsing filename, Error_opening filename e], Inr None)
      | Inr mlog \<Rightarrow>
          (case read_loop mlog [] of
             Inl e \<Rightarrow> ([Parsing filename], Inl e)
           | Inr data_rows \<Rightarrow>
               if data_rows = [] then ([Parsing filename, No_usable_data filename], Inr None)
               else
                 ([Parsing filename],
                  (let df = DataFrame data_rows;
                       df = dropna (fillna_ffill df)
                   in case select_eq ''type'' (Str ''VFR_HUD'') df of
                        Inl e \<Rightarrow> Inl e
                      | Inr df \<Rightarrow>
                          (case drop_column ''type'' df of
                             Inl e \<Rightarrow> Inl e
                           | Inr df \<Rightarrow>
                               Inr (Some (set_column ''source_file'' (Str (basename filename)) df)))))))"

text \<open>Lines 78 to 81: the loop over the log files, with \<open>all_flights\<close> as accumulator.\<close>

fun for_loop :: "files \<Rightarrow> string list \<Rightarrow> dataframe list \<Rightarrow> line list \<times> (exn + dataframe list)" where
  "for_loop fs [] all_flights = ([], Inr all_flights)"
| "for_loop fs (log_file # rest) all_flights =
     (case process_single_tlog fs log_file of
        (out, Inl e) \<Rightarrow> (out, Inl e)
      | (out, Inr flight_df) \<Rightarrow>
          (let all_flights' =
                 (case flight_df of
                    None \<Rightarrow> all_flights
                  | Some df \<Rightarrow> if \<not> empty df then all_flights @ [df] else all_flights);
               (out', r) = for_loop fs rest all_flights'
           in (out @ out', r)))"

text \<open>
  Lines 66 to 97. \<open>tlog_files\<close> is the result of \<^verbatim>\<open>glob.glob("*.tlog")\<close>. The
  result is what was printed, and either the uncaught exception or what was written:
  nothing, or the file name with the table passed to \<^verbatim>\<open>to_csv\<close>.
\<close>

definition main :: "files \<Rightarrow> string list \<Rightarrow> line list \<times> (exn + (string \<times> dataframe) option)" where
  "main fs tlog_files =
     (if tlog_files = [] then ([No_tlog_files], Inr None)
      else
        (case for_loop fs tlog_files [] of
           (out, Inl e) \<Rightarrow> (Found (length tlog_files) # out, Inl e)
         | (out, Inr all_flights) \<Rightarrow>
             if all_flights \<noteq> [] then
               (let master_df = concat_frames all_flights;
                    output_file = ''master_drone_dataset.csv''
                in (Found (length tlog_files) # out @
                      [Banner, Done_processed (length all_flights),
                       Total_data_points (length (rows master_df)), Saved_to output_file,
                       Banner, Head (head master_df)],
                    Inr (Some (output_file, master_df))))
             else (Found (length tlog_files) # out @ [Could_not_process], Inr None)))"

subsection \<open>Notions the properties are stated with\<close>

text \<open>
  The tracked messages of a log in stream order: what the successive calls of
  \<^verbatim>\<open>recv_match\<close> in the loop return. The index label of a row of the per-file
  table is the position of its message in this list.
\<close>

fun tracked_msgs :: "recv list \<Rightarrow> mavlink_message list" where
  "tracked_msgs [] = []"
| "tracked_msgs (Raises e # rest) = tracked_msgs rest"
| "tracked_msgs (Got m # rest) =
     (if get_type m \<in> set tracked_types then m # tracked_msgs rest else tracked_msgs rest)"

text \<open>
  The value of field \<open>f\<close> carried by the most recent message of \<open>ms\<close> whose row
  dictionary has the key \<open>f\<close>, whatever the value is; \<open>None\<close> when no message has
  the key.
\<close>

definition most_recent_setting :: "string \<Rightarrow> mavlink_message list \<Rightarrow> val option" where
  "most_recent_setting f ms =
     (case rev (filter (\<lambda>m. f \<in> fst ` set (make_row m)) ms) of
        [] \<Rightarrow> None
      | m # _ \<Rightarrow> map_of (make_row m) f)"

text \<open>
  The value of field \<open>f\<close> carried by the most recent message of \<open>ms\<close> that carries a
  value other than NaN for it; NaN when there is none.
\<close>

definition last_observed :: "string \<Rightarrow> mavlink_message list \<Rightarrow> val" where
  "last_observed f ms =
     (case rev (filter (\<lambda>m. getcell (make_row m) f \<noteq> NaN) ms) of
        [] \<Rightarrow> NaN
      | m # _ \<Rightarrow> getcell (make_row m) f)"

text \<open>The tracked fields, and the columns the specification lists for the output.\<close>

definition tracked_fields :: "string list" where
  "tracked_fields = [''voltage'', ''current'', ''battery_remaining'', ''throttle'', ''altitude'',
                     ''groundspeed'', ''roll'', ''pitch'']"

definition schema :: "string list" where
  "schema = ''timestamp'' # tracked_fields @ [''source_file'']"

text \<open>
  The tracked fields a message sets, in the order in which its row dictionary gets them,
  and the tracked fields of a list of messages in the order in which they first appear.
\<close>

definition fields_written :: "mavlink_message \<Rightarrow> string list" where
  "fields_written m = filter (\<lambda>k. k \<in> set tracked_fields) (map fst (make_row m))"

definition first_appearance :: "mavlink_message list \<Rightarrow> string list" where
  "first_appearance ms = unique (concat (map fields_written ms))"

text \<open>
  What a path adds to \<open>all_flights\<close> in the loop of \<open>main\<close>: its table when
  \<open>process_single_tlog\<close> returns one that is not empty, nothing otherwise.
\<close>

definition flight :: "files \<Rightarrow> string \<Rightarrow> dataframe list" where
  "flight fs p =
     (case snd (process_single_tlog fs p) of
        Inr (Some df) \<Rightarrow> if \<not> empty df then [df] else []
      | _ \<Rightarrow> [])"

subsection \<open>Auxiliary notions of the proofs\<close>

text \<open>The keys of all row dictionaries, as \<open>DataFrame\<close> orders them.\<close>

definition keys :: "dict list \<Rightarrow> string list" where
  "keys ds = unique (concat (map (map fst) ds))"

text \<open>All keys \<open>make_row\<close> can write.\<close>

definition all_keys :: "string list" where
  "all_keys = [''timestamp'', ''type'', ''voltage'', ''current'', ''battery_remaining'',
               ''throttle'', ''altitude'', ''groundspeed'', ''roll'', ''pitch'']"

text \<open>
  Forward fill of one column over the dictionaries \<open>ds\<close>, starting from the value
  \<open>p\<close>: the last value that is not NaN.
\<close>

definition hold :: "val \<Rightarrow> string \<Rightarrow> dict list \<Rightarrow> val" where
  "hold p c ds =
     (case rev (filter (\<lambda>d. getcell d c \<noteq> NaN) ds) of [] \<Rightarrow> p | d # _ \<Rightarrow> getcell d c)"

text \<open>The index labels that survive \<open>dropna\<close> and the selection of the anchor rows.\<close>

definition kept :: "dict list \<Rightarrow> nat list" where
  "kept ds =
     filter (\<lambda>k. (\<forall>c\<in>set (keys ds). hold NaN c (take (Suc k) ds) \<noteq> NaN) \<and>
                 hold NaN ''type'' (take (Suc k) ds) = Str ''VFR_HUD'')
       [0..<length ds]"

text \<open>The table \<open>process_single_tlog\<close> returns for the tracked messages \<open>ms\<close>, in closed form.\<close>

definition frame_of :: "string \<Rightarrow> mavlink_message list \<Rightarrow> dataframe" where
  "frame_of p ms =
     \<lparr>columns = filter (\<lambda>k. k \<noteq> ''type'') (keys (map make_row ms)) @ [''source_file''],
      rows =
        map (\<lambda>k. (k, map (\<lambda>c. last_observed c (take (Suc k) ms))
                       (filter (\<lambda>k. k \<noteq> ''type'') (keys (map make_row ms))) @
                     [Str (basename p)]))
          (filter (\<lambda>k. (\<forall>c\<in>set (keys (map make_row ms)). last_observed c (take (Suc k) ms) \<noteq> NaN) \<and>
                        get_type (ms ! k) = ''VFR_HUD'')
             [0..<length ms])\<rparr>"

subsection \<open>Example logs\<close>

text \<open>
  \<open>log_a\<close>: a status message, a heartbeat, an attitude message, an anchor, an attitude
  message whose roll is NaN, an anchor.
\<close>

definition log_a :: "recv list" where
  "log_a = [Got (SYS_STATUS 1 12400 150 90), Got (OTHER ''HEARTBEAT'' 1.5),
            Got (ATTITUDE 2 (Float 0.1) (Float 0.2)), Got (VFR_HUD 3 50 (Float 10) (Float 5)),
            Got (ATTITUDE 4 Nan (Float 0.3)), Got (VFR_HUD 5 55 (Float 11) (Float 6))]"

text \<open>\<open>log_b\<close>: a status message and an anchor; no attitude message at all.\<close>

definition log_b :: "recv list" where
  "log_b = [Got (SYS_STATUS 1 11800 120 80), Got (VFR_HUD 2 40 (Float 7) (Float 3))]"

text \<open>\<open>log_c\<close>: the anchor comes first, then status, attitude and a second anchor.\<close>

definition log_c :: "recv list" where
  "log_c = [Got (VFR_HUD 1 30 (Float 2) (Float 1)), Got (SYS_STATUS 2 12000 100 70),
            Got (ATTITUDE 3 (Float 0.5) (Float 0.6)), Got (VFR_HUD 4 35 (Float 4) (Float 2))]"

text \<open>\<open>log_r\<close>: the decoder raises after a first complete anchor.\<close>

definition log_r :: "recv list" where
  "log_r = [Got (SYS_STATUS 1 12100 110 60), Got (ATTITUDE 2 (Float 0.7) (Float 0.8)),
            Got (VFR_HUD 3 20 (Float 9) (Float 4)), Raises ''bad frame'',
            Got (VFR_HUD 5 25 (Float 8) (Float 4))]"

text \<open>\<open>log_s\<close>: status, anchor, attitude, anchor.\<close>

definition log_s :: "recv list" where
  "log_s = [Got (SYS_STATUS 1 12400 150 90), Got (VFR_HUD 2 50 (Float 10) (Float 5)),
            Got (ATTITUDE 3 (Float 0.1) (Float 0.2)), Got (VFR_HUD 4 55 (Float 11) (Float 6))]"

text \<open>\<open>log_n\<close>: a status message and no anchor.\<close>

definition log_n :: "recv list" where
  "log_n = [Got (SYS_STATUS 1 12000 100 50)]"

text \<open>\<open>log_v\<close>: one anchor and nothing else.\<close>

definition log_v :: "recv list" where
  "log_v = [Got (VFR_HUD 1 30 (Float 2) (Float 1))]"

text \<open>
  \<open>log_d\<close>: status, attitude, an anchor, bytes the decoder could not decode (pymavlink
  hands them on as a message of type BAD_DATA), and a second anchor.
\<close>

definition log_d :: "recv list" where
  "log_d = [Got (SYS_STATUS 1 12300 130 85), Got (ATTITUDE 2 (Float 0.3) (Float 0.4)),
            Got (VFR_HUD 3 45 (Float 12) (Float 7)), Got (OTHER ''BAD_DATA'' 3.5),
            Got (VFR_HUD 4 46 (Float 13) (Float 8))]"

text \<open>A directory with these logs, a log without tracked messages, and nothing else.\<close>

definition disk :: files where
  "disk p =
     (if p = ''logs/a.tlog'' then Inr log_a
      else if p = ''b.tlog'' then Inr log_b
      else if p = ''old/a.tlog'' then Inr log_c
      else if p = ''r.tlog'' then Inr log_r
      else if p = ''s.tlog'' then Inr log_s
      else if p = ''n.tlog'' then Inr log_n
      else if p = ''v.tlog'' then Inr log_v
      else if p = ''d.tlog'' then Inr log_d
      else if p = ''e.tlog'' then Inr [Got (OTHER ''HEARTBEAT'' 1)]
      else Inl (Exception ''cannot open''))"

definition frame_a :: dataframe where
  "frame_a =
     \<lparr>columns = [''timestamp'', ''voltage'', ''current'', ''battery_remaining'', ''roll'',
                 ''pitch'', ''throttle'', ''altitude'', ''groundspeed'', ''source_file''],
      rows = [(2, [Num 3, Num (62 / 5), Num (3 / 2), Num 90, Num (1 / 10), Num (1 / 5),
                   Num 50, Num 10, Num 5, Str ''a.tlog'']),
              (4, [Num 5, Num (62 / 5), Num (3 / 2), Num 90, Num (1 / 10), Num (3 / 10),
                   Num 55, Num 11, Num 6, Str ''a.tlog''])]\<rparr>"

definition frame_b :: dataframe where
  "frame_b =
     \<lparr>columns = [''timestamp'', ''voltage'', ''current'', ''battery_remaining'',
                 ''throttle'', ''altitude'', ''groundspeed'', ''source_file''],
      rows = [(1, [Num 2, Num (59 / 5), Num (6 / 5), Num 80, Num 40, Num 7, Num 3,
                   Str ''b.tlog''])]\<rparr>"

definition frame_c :: dataframe where
  "frame_c =
     \<lparr>columns = [''timestamp'', ''throttle'', ''altitude'', ''groundspeed'', ''voltage'',
                 ''current'', ''battery_remaining'', ''roll'', ''pitch'', ''source_file''],
      rows = [(3, [Num 4, Num 35, Num 4, Num 2, Num 12, Num 1, Num 70, Num (1 / 2),
                   Num (3 / 5), Str ''a.tlog''])]\<rparr>"

definition frame_s :: dataframe where
  "frame_s =
     \<lparr>columns = [''timestamp'', ''voltage'', ''current'', ''battery_remaining'', ''throttle'',
                 ''altitude'', ''groundspeed'', ''roll'', ''pitch'', ''source_file''],
      rows = [(3, [Num 4, Num (62 / 5), Num (3 / 2), Num 90, Num 55, Num 11, Num 6,
                   Num (1 / 10), Num (1 / 5), Str ''s.tlog''])]\<rparr>"

definition frame_n :: dataframe where
  "frame_n =
     \<lparr>columns = [''timestamp'', ''voltage'', ''current'', ''battery_remaining'', ''source_file''],
      rows = []\<rparr>"

definition frame_v :: dataframe where
  "frame_v =
     \<lparr>columns = [''timestamp'', ''throttle'', ''altitude'', ''groundspeed'', ''source_file''],
      rows = [(0, [Num 1, Num 30, Num 2, Num 1, Str ''v.tlog''])]\<rparr>"

definition frame_d :: dataframe where
  "frame_d =
     \<lparr>columns = [''timestamp'', ''voltage'', ''current'', ''battery_remaining'', ''roll'',
                 ''pitch'', ''throttle'', ''altitude'', ''groundspeed'', ''source_file''],
      rows = [(2, [Num 3, Num (123 / 10), Num (13 / 10), Num 85, Num (3 / 10), Num (2 / 5),
                   Num 45, Num 12, Num 7, Str ''d.tlog'']),
              (3, [Num 4, Num (123 / 10), Num (13 / 10), Num 85, Num (3 / 10), Num (2 / 5),
                   Num 46, Num 13, Num 8, Str ''d.tlog''])]\<rparr>"

text \<open>The tables written for some batches over this directory.\<close>

definition master_av :: dataframe where
  "master_av =
     \<lparr>columns = [''timestamp'', ''voltage'', ''current'', ''battery_remaining'', ''roll'',
                 ''pitch'', ''throttle'', ''altitude'', ''groundspeed'', ''source_file''],
      rows = [(0, [Num 3, Num (62 / 5), Num (3 / 2), Num 90, Num (1 / 10), Num (1 / 5),
                   Num 50, Num 10, Num 5, Str ''a.tlog'']),
              (1, [Num 5, Num (62 / 5), Num (3 / 2), Num 90, Num (1 / 10), Num (3 / 10),
                   Num 55, Num 11, Num 6, Str ''a.tlog'']),
              (2, [Num 1, NaN, NaN, NaN, NaN, NaN, Num 30, Num 2, Num 1, Str ''v.tlog''])]\<rparr>"


definition master_as :: dataframe where
  "master_as =
     \<lparr>columns = [''timestamp'', ''voltage'', ''current'', ''battery_remaining'', ''roll'',
                 ''pitch'', ''throttle'', ''altitude'', ''groundspeed'', ''source_file''],
      rows = [(0, [Num 3, Num (62 / 5), Num (3 / 2), Num 90, Num (1 / 10), Num (1 / 5),
                   Num 50, Num 10, Num 5, Str ''a.tlog'']),
              (1, [Num 5, Num (62 / 5), Num (3 / 2), Num 90, Num (1 / 10), Num (3 / 10),
                   Num 55, Num 11, Num 6, Str ''a.tlog'']),
              (2, [Num 4, Num (62 / 5), Num (3 / 2), Num 90, Num (1 / 10), Num (1 / 5),
                   Num 55, Num 11, Num 6, Str ''s.tlog''])]\<rparr>"

definition master_ab :: dataframe where
  "master_ab =
     \<lparr>columns = [''timestamp'', ''voltage'', ''current'', ''battery_remaining'', ''roll'',
                 ''pitch'', ''throttle'', ''altitude'', ''groundspeed'', ''source_file''],
      rows = [(0, [Num 3, Num (62 / 5), Num (3 / 2), Num 90, Num (1 / 10), Num (1 / 5),
                   Num 50, Num 10, Num 5, Str ''a.tlog'']),
              (1, [Num 5, Num (62 / 5), Num (3 / 2), Num 90, Num (1 / 10), Num (3 / 10),
                   Num 55, Num 11, Num 6, Str ''a.tlog'']),
              (2, [Num 2, Num (59 / 5), Num (6 / 5), Num 80, NaN, NaN,
                   Num 40, Num 7, Num 3, Str ''b.tlog''])]\<rparr>"

definition master_ac :: dataframe where
  "master_ac =
     \<lparr>columns = [''timestamp'', ''voltage'', ''current'', ''battery_remaining'', ''roll'',
                 ''pitch'', ''throttle'', ''altitude'', ''groundspeed'', ''source_file''],
      rows = [(0, [Num 3, Num (62 / 5), Num (3 / 2), Num 90, Num (1 / 10), Num (1 / 5),
                   Num 50, Num 10, Num 5, Str ''a.tlog'']),
              (1, [Num 5, Num (62 / 5), Num (3 / 2), Num 90, Num (1 / 10), Num (3 / 10),
                   Num 55, Num 11, Num 6, Str ''a.tlog'']),
              (2, [Num 4, Num 12, Num 1, Num 70, Num (1 / 2), Num (3 / 5),
                   Num 35, Num 4, Num 2, Str ''a.tlog''])]\<rparr>"

definition master_cs :: dataframe where
  "master_cs =
     \<lparr>columns = [''timestamp'', ''throttle'', ''altitude'', ''groundspeed'', ''voltage'',
                 ''current'', ''battery_remaining'', ''roll'', ''pitch'', ''source_file''],
      rows = [(0, [Num 4, Num 35, Num 4, Num 2, Num 12, Num 1, Num 70, Num (1 / 2),
                   Num (3 / 5), Str ''a.tlog'']),
              (1, [Num 4, Num 55, Num 11, Num 6, Num (62 / 5), Num (3 / 2), Num 90,
                   Num (1 / 10), Num (1 / 5), Str ''s.tlog''])]\<rparr>"

definition master_sc :: dataframe where
  "master_sc =
     \<lparr>columns = [''timestamp'', ''voltage'', ''current'', ''battery_remaining'', ''throttle'',
                 ''altitude'', ''groundspeed'', ''roll'', ''pitch'', ''source_file''],
      rows = [(0, [Num 4, Num (62 / 5), Num (3 / 2), Num 90, Num 55, Num 11, Num 6,
                   Num (1 / 10), Num (1 / 5), Str ''s.tlog'']),
              (1, [Num 4, Num 12, Num 1, Num 70, Num 35, Num 4, Num 2, Num (1 / 2),
                   Num (3 / 5), Str ''a.tlog''])]\<rparr>"

section \<open>Auxiliary lemmas\<close>

subsection \<open>The read loop\<close>

lemma read_loop_Nil: "read_loop [] acc = Inr acc"
  by (simp add: read_loop.simps)

lemma read_loop_Raises: "read_loop (Raises e # rest) acc = Inl (Exception e)"
  by (simp add: read_loop.simps)

lemma read_loop_Got:
  "read_loop (Got m # rest) acc =
     (if get_type m \<in> set tracked_types then read_loop rest (acc @ [make_row m])
      else read_loop rest acc)"
  by (subst read_loop.simps, subst (3) read_loop.simps) simp

lemma read_loop_Inr:
  "read_loop mlog acc = Inr ds \<Longrightarrow> ds = acc @ map make_row (tracked_msgs mlog)"
proof (induction mlog arbitrary: acc)
  case Nil
  then show ?case by (simp add: read_loop_Nil)
next
  case (Cons r mlog)
  show ?case
  proof (cases r)
    case (Got m)
    show ?thesis
    proof (cases "get_type m \<in> set tracked_types")
      case True
      with Cons.prems Got have "read_loop mlog (acc @ [make_row m]) = Inr ds"
        by (simp add: read_loop_Got)
      from Cons.IH [OF this] True Got show ?thesis by simp
    next
      case False
      with Cons.prems Got have "read_loop mlog acc = Inr ds"
        by (simp add: read_loop_Got)
      from Cons.IH [OF this] False Got show ?thesis by simp
    qed
  next
    case (Raises e)
    with Cons.prems show ?thesis by (simp add: read_loop_Raises)
  qed
qed

lemma read_loop_raises: "Raises e \<in> set mlog \<Longrightarrow> isl (read_loop mlog acc)"
proof (induction mlog arbitrary: acc)
  case Nil
  then show ?case by simp
next
  case (Cons r mlog)
  then show ?case
    by (cases r) (auto simp: read_loop_Got read_loop_Raises)
qed

lemma read_loop_total:
  "\<forall>e. Raises e \<notin> set mlog \<Longrightarrow> read_loop mlog acc = Inr (acc @ map make_row (tracked_msgs mlog))"
proof (induction mlog arbitrary: acc)
  case Nil
  then show ?case by (simp add: read_loop_Nil)
next
  case (Cons r mlog)
  then show ?case
    by (cases r) (auto simp: read_loop_Got)
qed

subsection \<open>Order of first appearance\<close>

lemma set_unique: "set (unique xs) = set xs"
  by (induction xs) auto

lemma distinct_unique: "distinct (unique xs)"
  by (induction xs) (auto simp: set_unique)

lemma unique_append: "unique (xs @ ys) = unique xs @ filter (\<lambda>y. y \<notin> set xs) (unique ys)"
  by (induction xs) (auto simp: conj_commute intro: filter_cong)

subsection \<open>Forward fill in closed form\<close>

lemma hold_Nil: "hold p c [] = p"
  by (simp add: hold_def)

lemma hold_Cons: "hold p c (d # ds) = hold (if getcell d c = NaN then p else getcell d c) c ds"
  by (cases "rev (filter (\<lambda>d. getcell d c \<noteq> NaN) ds)") (auto simp: hold_def)

lemma hold_snoc:
  "hold p c (ds @ [d]) = (if getcell d c = NaN then hold p c ds else getcell d c)"
  by (simp add: hold_def)

lemma hold_at:
  "k < length ds \<Longrightarrow> getcell (ds ! k) c \<noteq> NaN \<Longrightarrow> hold p c (take (Suc k) ds) = getcell (ds ! k) c"
  by (simp add: take_Suc_conv_app_nth hold_snoc)

lemma hold_make_row: "hold NaN c (map make_row ms) = last_observed c ms"
proof -
  have "rev (filter (\<lambda>d. getcell d c \<noteq> NaN) (map make_row ms)) =
        map make_row (rev (filter (\<lambda>m. getcell (make_row m) c \<noteq> NaN) ms))"
    by (simp add: filter_map rev_map comp_def)
  then show ?thesis
    by (cases "rev (filter (\<lambda>m. getcell (make_row m) c \<noteq> NaN) ms)")
       (simp_all add: hold_def last_observed_def)
qed

lemma map2_map_map: "map2 f (map g xs) (map h xs) = map (\<lambda>x. f (g x) (h x)) xs"
  by (induction xs) auto

lemma ffill_closed:
  "ffill (map p cols) (enumerate n (map (\<lambda>d. map (getcell d) cols) ds)) =
     map (\<lambda>k. (n + k, map (\<lambda>c. hold (p c) c (take (Suc k) ds)) cols)) [0..<length ds]"
proof (induction ds arbitrary: p n)
  case Nil
  then show ?case by simp
next
  case (Cons d ds)
  let ?p' = "\<lambda>c. if getcell d c = NaN then p c else getcell d c"
  have "ffill (map p cols) (enumerate n (map (\<lambda>d. map (getcell d) cols) (d # ds))) =
        (n, map ?p' cols) #
        ffill (map ?p' cols) (enumerate (Suc n) (map (\<lambda>d. map (getcell d) cols) ds))"
    by (simp add: map2_map_map Let_def)
  also have "\<dots> = (n, map ?p' cols) #
        map (\<lambda>k. (Suc n + k, map (\<lambda>c. hold (?p' c) c (take (Suc k) ds)) cols)) [0..<length ds]"
    by (simp only: Cons.IH)
  also have "\<dots> =
        map (\<lambda>k. (n + k, map (\<lambda>c. hold (p c) c (take (Suc k) (d # ds))) cols))
          [0..<length (d # ds)]"
    by (simp add: upt_conv_Cons map_Suc_upt [symmetric] hold_Cons hold_Nil del: upt_Suc)
  finally show ?case .
qed

subsection \<open>Cells\<close>

lemma cell_map: "c \<in> set cols \<Longrightarrow> cell cols (map g cols) c = g c"
  by (induction cols) (auto simp: cell_def getcell_def)

lemma cell_absent: "c \<notin> set cols \<Longrightarrow> cell cols r c = NaN"
proof -
  assume "c \<notin> set cols"
  then have "map_of (zip cols r) c = None"
    by (metis map_of_eq_None_iff set_zip_leftD prod.collapse imageE)
  then show ?thesis by (simp add: cell_def getcell_def)
qed

lemma cell_snoc_old: "c \<in> set cols \<Longrightarrow> cell (cols @ [k]) (map g cols @ [v]) c = g c"
  by (induction cols) (auto simp: cell_def getcell_def)

lemma cell_snoc_new: "k \<notin> set cols \<Longrightarrow> cell (cols @ [k]) (map g cols @ [v]) k = v"
  by (induction cols) (auto simp: cell_def getcell_def)

lemma drop_zip_map:
  "map snd (filter (\<lambda>(k, v). k \<noteq> c) (zip cols (map g cols))) = map g (filter (\<lambda>k. k \<noteq> c) cols)"
  by (induction cols) auto

subsection \<open>The per-file table in closed form\<close>

lemma process_rows:
  assumes "fs p = Inr mlog" "read_loop mlog [] = Inr ds" "ds \<noteq> []"
    and ty: "''type'' \<in> set (keys ds)" and sf: "''source_file'' \<notin> set (keys ds)"
  shows "process_single_tlog fs p =
    ([Parsing p],
     Inr (Some \<lparr>columns = filter (\<lambda>k. k \<noteq> ''type'') (keys ds) @ [''source_file''],
                rows = map (\<lambda>k. (k, map (\<lambda>c. hold NaN c (take (Suc k) ds))
                                        (filter (\<lambda>k. k \<noteq> ''type'') (keys ds)) @
                                      [Str (basename p)]))
                           (kept ds)\<rparr>))"
proof -
  let ?cols = "keys ds"
  let ?g = "\<lambda>k c. hold NaN c (take (Suc k) ds)"
  have 1: "fillna_ffill (DataFrame ds) =
           \<lparr>columns = ?cols, rows = map (\<lambda>k. (k, map (?g k) ?cols)) [0..<length ds]\<rparr>"
    using ffill_closed [of "\<lambda>c. NaN" ?cols 0 ds]
    by (simp add: fillna_ffill_def DataFrame_def Let_def keys_def map_replicate_const)
  have 2: "dropna (fillna_ffill (DataFrame ds)) =
           \<lparr>columns = ?cols, rows = map (\<lambda>k. (k, map (?g k) ?cols))
               (filter (\<lambda>k. \<forall>c\<in>set ?cols. ?g k c \<noteq> NaN) [0..<length ds])\<rparr>"
  proof -
    have "(NaN \<notin> ?g k ` set ?cols) = (\<forall>c\<in>set ?cols. ?g k c \<noteq> NaN)" for k
      by force
    then show ?thesis
      unfolding 1 by (simp add: dropna_def filter_map comp_def)
  qed
  have 3: "select_eq ''type'' (Str ''VFR_HUD'') (dropna (fillna_ffill (DataFrame ds))) =
           Inr \<lparr>columns = ?cols, rows = map (\<lambda>k. (k, map (?g k) ?cols)) (kept ds)\<rparr>"
    unfolding 2 using ty
    by (simp add: select_eq_def filter_map comp_def cell_map kept_def)
  have 4: "drop_column ''type''
             \<lparr>columns = ?cols, rows = map (\<lambda>k. (k, map (?g k) ?cols)) (kept ds)\<rparr> =
           Inr \<lparr>columns = filter (\<lambda>k. k \<noteq> ''type'') ?cols,
                rows = map (\<lambda>k. (k, map (?g k) (filter (\<lambda>k. k \<noteq> ''type'') ?cols))) (kept ds)\<rparr>"
    using ty by (simp add: drop_column_def drop_zip_map comp_def)
  show ?thesis
    using assms(1-3) sf
    by (simp add: process_single_tlog_def Let_def 3 4 set_column_def comp_def)
qed

lemma make_row_type: "getcell (make_row m) ''type'' = Str (get_type m)"
  by (cases m) (simp_all add: getcell_def)

lemma make_row_timestamp: "getcell (make_row m) ''timestamp'' = Num (timestamp m)"
  by (cases m) (simp_all add: getcell_def)

lemma make_row_keys: "set (map fst (make_row m)) \<subseteq> set all_keys"
  by (cases m) (simp_all add: all_keys_def)

lemma make_row_has:
  "''timestamp'' \<in> fst ` set (make_row m)" "''type'' \<in> fst ` set (make_row m)"
  by (cases m; simp)+

lemma set_keys: "set (keys ds) = (\<Union>d\<in>set ds. fst ` set d)"
  by (simp add: keys_def set_unique)

lemma keys_rows_subset: "set (keys (map make_row ms)) \<subseteq> set all_keys"
  using make_row_keys by (auto simp: set_keys)

lemma keys_rows_has:
  "ms \<noteq> [] \<Longrightarrow> ''type'' \<in> set (keys (map make_row ms))"
  "ms \<noteq> [] \<Longrightarrow> ''timestamp'' \<in> set (keys (map make_row ms))"
  using make_row_has by (cases ms; force simp: set_keys)+

lemma keys_rows_no_source: "''source_file'' \<notin> set (keys (map make_row ms))"
  using keys_rows_subset [of ms] by (auto simp: all_keys_def)

lemma kept_rows:
  "kept (map make_row ms) =
     filter (\<lambda>k. (\<forall>c\<in>set (keys (map make_row ms)). last_observed c (take (Suc k) ms) \<noteq> NaN) \<and>
                 get_type (ms ! k) = ''VFR_HUD'') [0..<length ms]"
proof -
  have "hold NaN ''type'' (take (Suc k) (map make_row ms)) = Str (get_type (ms ! k))"
    if "k < length ms" for k
    using that hold_at [of k "map make_row ms" "''type''" NaN] by (simp add: make_row_type)
  then show ?thesis
    unfolding kept_def
    by (auto simp: take_map hold_make_row intro!: filter_cong)
qed

lemma process_Some:
  assumes "fs p = Inr mlog" "snd (process_single_tlog fs p) = Inr (Some df)"
  shows "df = frame_of p (tracked_msgs mlog)" "tracked_msgs mlog \<noteq> []"
proof -
  let ?ms = "tracked_msgs mlog"
  obtain ds where ds: "read_loop mlog [] = Inr ds"
    using assms by (cases "read_loop mlog []") (auto simp: process_single_tlog_def)
  then have eq: "ds = map make_row ?ms"
    using read_loop_Inr [of mlog "[]" ds] by simp
  have ne: "ds \<noteq> []"
    using assms ds by (auto simp: process_single_tlog_def)
  with eq show "?ms \<noteq> []" by simp
  have "''type'' \<in> set (keys ds)" "''source_file'' \<notin> set (keys ds)"
    using eq ne keys_rows_has(1) [of ?ms] keys_rows_no_source [of ?ms] by simp_all
  from process_rows [of fs p mlog ds, OF assms(1) ds ne this]
  have "process_single_tlog fs p = ([Parsing p], Inr (Some (frame_of p ?ms)))"
    by (simp add: eq frame_of_def kept_rows take_map hold_make_row)
  with assms(2) show "df = frame_of p ?ms" by simp
qed

lemma process_opened:
  assumes "snd (process_single_tlog fs p) = Inr (Some df)"
  obtains mlog where "fs p = Inr mlog"
  using assms by (cases "fs p") (auto simp: process_single_tlog_def)

subsection \<open>The example logs, evaluated\<close>

lemmas eval_simps = read_loop_Nil read_loop_Got read_loop_Raises tracked_types_def
  process_single_tlog_def DataFrame_def fillna_ffill_def dropna_def select_eq_def drop_column_def
  set_column_def cell_def getcell_def basename_def enumerate_eq_zip Let_def upt_rec

lemma process_a:
  "process_single_tlog disk ''logs/a.tlog'' = ([Parsing ''logs/a.tlog''], Inr (Some frame_a))"
  by (simp add: disk_def log_a_def frame_a_def eval_simps)

lemma process_b:
  "process_single_tlog disk ''b.tlog'' = ([Parsing ''b.tlog''], Inr (Some frame_b))"
  by (simp add: disk_def log_b_def frame_b_def eval_simps)

lemma process_c:
  "process_single_tlog disk ''old/a.tlog'' = ([Parsing ''old/a.tlog''], Inr (Some frame_c))"
  by (simp add: disk_def log_c_def frame_c_def eval_simps)

lemma process_s:
  "process_single_tlog disk ''s.tlog'' = ([Parsing ''s.tlog''], Inr (Some frame_s))"
  by (simp add: disk_def log_s_def frame_s_def eval_simps)

lemma process_r:
  "process_single_tlog disk ''r.tlog'' = ([Parsing ''r.tlog''], Inl (Exception ''bad frame''))"
  by (simp add: disk_def log_r_def eval_simps)

lemma process_n:
  "process_single_tlog disk ''n.tlog'' = ([Parsing ''n.tlog''], Inr (Some frame_n))"
  by (simp add: disk_def log_n_def frame_n_def eval_simps)

lemma process_v:
  "process_single_tlog disk ''v.tlog'' = ([Parsing ''v.tlog''], Inr (Some frame_v))"
  by (simp add: disk_def log_v_def frame_v_def eval_simps)

lemma process_d:
  "process_single_tlog disk ''d.tlog'' = ([Parsing ''d.tlog''], Inr (Some frame_d))"
  by (simp add: disk_def log_d_def frame_d_def eval_simps)

lemma process_e:
  "process_single_tlog disk ''e.tlog'' = ([Parsing ''e.tlog'', No_usable_data ''e.tlog''], Inr None)"
  by (simp add: disk_def eval_simps)

lemma process_missing:
  "process_single_tlog disk ''x.tlog'' =
     ([Parsing ''x.tlog'', Error_opening ''x.tlog'' (Exception ''cannot open'')], Inr None)"
  by (simp add: disk_def process_single_tlog_def)

subsection \<open>Rows of the per-file table\<close>

lemma last_observed_NaN:
  "\<forall>m\<in>set ms. getcell (make_row m) f = NaN \<Longrightarrow> last_observed f ms = NaN"
  by (simp add: last_observed_def filter_False)

lemma getcell_absent: "f \<notin> fst ` set d \<Longrightarrow> getcell d f = NaN"
  by (simp add: getcell_def map_of_eq_None_iff [THEN iffD2])

lemma last_observed_no_key:
  assumes "f \<notin> set (keys (map make_row ms))"
  shows "last_observed f (take n ms) = NaN"
proof (rule last_observed_NaN, rule ballI)
  fix m assume "m \<in> set (take n ms)"
  then have "m \<in> set ms" by (rule in_set_takeD)
  with assms have "f \<notin> fst ` set (make_row m)" by (auto simp: set_keys)
  then show "getcell (make_row m) f = NaN" by (rule getcell_absent)
qed

lemma last_observed_snoc:
  "last_observed f (ms @ [m]) =
     (if getcell (make_row m) f = NaN then last_observed f ms else getcell (make_row m) f)"
  by (simp add: last_observed_def)

lemma last_observed_at:
  "k < length ms \<Longrightarrow> getcell (make_row (ms ! k)) f \<noteq> NaN \<Longrightarrow>
   last_observed f (take (Suc k) ms) = getcell (make_row (ms ! k)) f"
  by (simp add: take_Suc_conv_app_nth last_observed_snoc)

text \<open>The rows of the closed form, one at a time.\<close>

lemma frame_of_row:
  assumes "(i, r) \<in> set (rows (frame_of p ms))"
  shows "i < length ms" "get_type (ms ! i) = ''VFR_HUD''"
    "\<forall>c\<in>set (keys (map make_row ms)). last_observed c (take (Suc i) ms) \<noteq> NaN"
    "r = map (\<lambda>c. last_observed c (take (Suc i) ms))
             (filter (\<lambda>k. k \<noteq> ''type'') (keys (map make_row ms))) @ [Str (basename p)]"
  using assms by (auto simp: frame_of_def)

lemma frame_of_cell:
  assumes "(i, r) \<in> set (rows (frame_of p ms))" "f \<noteq> ''type''" "f \<noteq> ''source_file''"
  shows "cell (columns (frame_of p ms)) r f = last_observed f (take (Suc i) ms)"
proof (cases "f \<in> set (keys (map make_row ms))")
  case True
  with assms(2) have "f \<in> set (filter (\<lambda>k. k \<noteq> ''type'') (keys (map make_row ms)))" by simp
  then show ?thesis
    using frame_of_row(4) [OF assms(1)] by (simp add: frame_of_def cell_snoc_old)
next
  case False
  with assms(3) have "f \<notin> set (columns (frame_of p ms))" by (simp add: frame_of_def)
  then have "cell (columns (frame_of p ms)) r f = NaN" by (rule cell_absent)
  with False show ?thesis by (simp add: last_observed_no_key)
qed

lemma frame_of_source:
  assumes "(i, r) \<in> set (rows (frame_of p ms))"
  shows "cell (columns (frame_of p ms)) r ''source_file'' = Str (basename p)"
  using frame_of_row(4) [OF assms] keys_rows_no_source [of ms]
  by (simp add: frame_of_def cell_snoc_new)

lemma frame_of_index: "sorted_wrt (<) (map fst (rows (frame_of p ms)))"
  by (simp add: frame_of_def comp_def sorted_wrt_filter)

lemma basename_join: "CHR ''/'' \<notin> set name \<Longrightarrow> basename (dir @ ''/'' @ name) = name"
proof -
  assume "CHR ''/'' \<notin> set name"
  then have all: "takeWhile (\<lambda>c. c \<noteq> CHR ''/'') (rev name) = rev name"
    by (auto simp: takeWhile_eq_all_conv)
  have split: "rev (dir @ ''/'' @ name) = rev name @ CHR ''/'' # rev dir"
    by simp
  have "takeWhile (\<lambda>c. c \<noteq> CHR ''/'') (rev name @ CHR ''/'' # rev dir) =
        takeWhile (\<lambda>c. c \<noteq> CHR ''/'') (rev name)"
    by (rule takeWhile_tail) simp
  then show ?thesis
    by (simp only: basename_def split all rev_rev_ident)
qed

subsection \<open>The batch\<close>

lemma for_loop_Cons_snd:
  "snd (for_loop fs (p # rest) acc) =
     (case snd (process_single_tlog fs p) of
        Inl e \<Rightarrow> Inl e
      | Inr r \<Rightarrow> snd (for_loop fs rest (acc @ flight fs p)))"
proof (cases "process_single_tlog fs p")
  case (Pair out res)
  then show ?thesis
    by (cases res) (auto simp: flight_def split: prod.splits option.splits)
qed

lemma for_loop_Cons_fst:
  "fst (for_loop fs (p # rest) acc) =
     (case snd (process_single_tlog fs p) of
        Inl e \<Rightarrow> fst (process_single_tlog fs p)
      | Inr r \<Rightarrow> fst (process_single_tlog fs p) @ fst (for_loop fs rest (acc @ flight fs p)))"
proof (cases "process_single_tlog fs p")
  case (Pair out res)
  then show ?thesis
    by (cases res) (auto simp: flight_def split: prod.splits option.splits)
qed

lemma for_loop_ok:
  "\<forall>p\<in>set files. \<not> isl (snd (process_single_tlog fs p)) \<Longrightarrow>
   for_loop fs files acc =
     (concat (map (\<lambda>p. fst (process_single_tlog fs p)) files),
      Inr (acc @ concat (map (flight fs) files)))"
proof (induction files arbitrary: acc)
  case Nil
  then show ?case by simp
next
  case (Cons p files)
  from Cons.prems obtain r where r: "snd (process_single_tlog fs p) = Inr r"
    by (cases "snd (process_single_tlog fs p)") auto
  from Cons.prems have "\<forall>p\<in>set files. \<not> isl (snd (process_single_tlog fs p))" by simp
  from Cons.IH [OF this, of "acc @ flight fs p"] r show ?case
    by (simp add: prod_eq_iff for_loop_Cons_snd for_loop_Cons_fst del: for_loop.simps)
qed

lemma for_loop_fail:
  "p \<in> set files \<Longrightarrow> isl (snd (process_single_tlog fs p)) \<Longrightarrow> isl (snd (for_loop fs files acc))"
proof (induction files arbitrary: acc)
  case Nil
  then show ?case by simp
next
  case (Cons q files)
  show ?case
  proof (cases "snd (process_single_tlog fs q)")
    case (Inl e)
    then show ?thesis by (simp add: for_loop_Cons_snd del: for_loop.simps)
  next
    case (Inr r)
    with Cons.prems have "p \<in> set files" by auto
    from Cons.IH [OF this Cons.prems(2)] Inr show ?thesis
      by (simp add: for_loop_Cons_snd del: for_loop.simps)
  qed
qed

lemma main_snd:
  "snd (main fs files) =
     (case snd (for_loop fs files []) of
        Inl e \<Rightarrow> Inl e
      | Inr all_flights \<Rightarrow>
          if all_flights \<noteq> [] then Inr (Some (''master_drone_dataset.csv'', concat_frames all_flights))
          else Inr None)"
proof (cases "for_loop fs files []")
  case (Pair out res)
  then show ?thesis
    by (cases res) (auto simp: main_def Let_def)
qed

lemma main_raises:
  assumes "p \<in> set files" "isl (snd (process_single_tlog fs p))"
  shows "isl (snd (main fs files))"
proof -
  from for_loop_fail [OF assms, of "[]"] obtain e where "snd (for_loop fs files []) = Inl e"
    by (cases "snd (for_loop fs files [])") auto
  then show ?thesis by (simp add: main_snd)
qed

lemma main_ok:
  assumes "\<not> isl (snd (main fs files))"
  shows "\<forall>p\<in>set files. \<not> isl (snd (process_single_tlog fs p))"
  using assms main_raises by blast

lemma main_written:
  assumes "snd (main fs files) = Inr (Some (out, master))"
  shows "master = concat_frames (concat (map (flight fs) files))"
    and "concat (map (flight fs) files) \<noteq> []"
    and "\<forall>p\<in>set files. \<not> isl (snd (process_single_tlog fs p))"
    and "out = ''master_drone_dataset.csv''"
proof -
  from assms have "\<not> isl (snd (main fs files))" by simp
  then show ok: "\<forall>p\<in>set files. \<not> isl (snd (process_single_tlog fs p))" by (rule main_ok)
  from for_loop_ok [OF ok, of "[]"]
  have "snd (for_loop fs files []) = Inr (concat (map (flight fs) files))" by simp
  with assms show "master = concat_frames (concat (map (flight fs) files))"
    and "concat (map (flight fs) files) \<noteq> []" and "out = ''master_drone_dataset.csv''"
    by (auto simp: main_snd split: if_splits)
qed

lemma flight_cases:
  assumes "df \<in> set (flight fs p)"
  shows "snd (process_single_tlog fs p) = Inr (Some df)" "\<not> empty df" "flight fs p = [df]"
  using assms by (auto simp: flight_def split: sum.splits option.splits if_splits)

lemma flight_frame:
  assumes "df \<in> set (flight fs p)"
  obtains mlog where "fs p = Inr mlog" "df = frame_of p (tracked_msgs mlog)"
proof -
  from flight_cases(1) [OF assms] obtain mlog where m: "fs p = Inr mlog"
    by (rule process_opened)
  from process_Some(1) [OF m flight_cases(1) [OF assms]] m that show thesis by blast
qed

lemma columns_concat_frames: "columns (concat_frames dfs) = unique (concat (map columns dfs))"
  by (simp add: concat_frames_def Let_def)

lemma rows_concat_frames:
  "map snd (rows (concat_frames dfs)) =
     concat (map (\<lambda>df. map (\<lambda>(i, r). reindex (columns df) (columns (concat_frames dfs)) r) (rows df)) dfs)"
  "map fst (rows (concat_frames dfs)) = [0..<length (rows (concat_frames dfs))]"
  by (simp_all add: concat_frames_def Let_def)

lemma reindex_cell: "c \<in> set cols' \<Longrightarrow> cell cols' (reindex cols cols' r) c = cell cols r c"
  by (simp add: reindex_def cell_map)

lemma reindex_cell_any:
  assumes "set cols \<subseteq> set cols'"
  shows "cell cols' (reindex cols cols' r) c = cell cols r c"
proof (cases "c \<in> set cols'")
  case True
  then show ?thesis by (rule reindex_cell)
next
  case False
  with assms have "c \<notin> set cols" by auto
  with False show ?thesis by (simp add: cell_absent)
qed

lemma columns_in_master:
  "df \<in> set dfs \<Longrightarrow> set (columns df) \<subseteq> set (columns (concat_frames dfs))"
  by (auto simp: columns_concat_frames set_unique)

lemma concat_map_concat_map:
  "concat (map f (concat (map g xs))) = concat (map (\<lambda>x. concat (map f (g x))) xs)"
  by (induction xs) auto

lemma map_concat_map_cong:
  "(\<And>x. x \<in> set xs \<Longrightarrow> map h (f x) = g x) \<Longrightarrow> map h (concat (map f xs)) = concat (map g xs)"
  by (induction xs) auto

lemma flight_a: "flight disk ''logs/a.tlog'' = [frame_a]"
  by (simp add: flight_def process_a empty_def frame_a_def)

lemma flight_b: "flight disk ''b.tlog'' = [frame_b]"
  by (simp add: flight_def process_b empty_def frame_b_def)

lemma flight_c: "flight disk ''old/a.tlog'' = [frame_c]"
  by (simp add: flight_def process_c empty_def frame_c_def)

lemma flight_s: "flight disk ''s.tlog'' = [frame_s]"
  by (simp add: flight_def process_s empty_def frame_s_def)

lemma flight_v: "flight disk ''v.tlog'' = [frame_v]"
  by (simp add: flight_def process_v empty_def frame_v_def)

lemma flight_d: "flight disk ''d.tlog'' = [frame_d]"
  by (simp add: flight_def process_d empty_def frame_d_def)

lemma flight_n: "flight disk ''n.tlog'' = []"
  by (simp add: flight_def process_n empty_def frame_n_def)

lemma flight_e: "flight disk ''e.tlog'' = []"
  by (simp add: flight_def process_e)

lemma flight_x: "flight disk ''x.tlog'' = []"
  by (simp add: flight_def process_missing)

lemmas concat_simps = concat_frames_def reindex_def cell_def getcell_def enumerate_eq_zip
  Let_def upt_rec frame_a_def frame_b_def frame_c_def frame_s_def frame_v_def frame_d_def

lemma for_loop_Nil: "for_loop fs [] acc = ([], Inr acc)"
  by simp

lemmas main_simps = main_snd for_loop_Cons_snd for_loop_Nil
  process_a process_b process_c process_s process_n process_e process_missing process_r
  process_v process_d flight_a flight_b flight_c flight_s flight_n flight_e flight_x
  flight_v flight_d

lemma concat_as: "concat_frames [frame_a, frame_s] = master_as"
  by (simp add: concat_simps master_as_def)

lemma concat_ab: "concat_frames [frame_a, frame_b] = master_ab"
  by (simp add: concat_simps master_ab_def)

lemma concat_ac: "concat_frames [frame_a, frame_c] = master_ac"
  by (simp add: concat_simps master_ac_def)

lemma concat_cs: "concat_frames [frame_c, frame_s] = master_cs"
  by (simp add: concat_simps master_cs_def)

lemma concat_sc: "concat_frames [frame_s, frame_c] = master_sc"
  by (simp add: concat_simps master_sc_def)

lemma concat_av: "concat_frames [frame_a, frame_v] = master_av"
  by (simp add: concat_simps master_av_def)


lemma main_av:
  "snd (main disk [''logs/a.tlog'', ''v.tlog'']) = Inr (Some (''master_drone_dataset.csv'', master_av))"
  by (simp add: main_simps concat_av del: for_loop.simps)


lemma main_as:
  "snd (main disk [''logs/a.tlog'', ''s.tlog'']) = Inr (Some (''master_drone_dataset.csv'', master_as))"
  by (simp add: main_simps concat_as del: for_loop.simps)

lemma main_axs:
  "snd (main disk [''logs/a.tlog'', ''x.tlog'', ''s.tlog'']) =
     Inr (Some (''master_drone_dataset.csv'', master_as))"
  by (simp add: main_simps concat_as del: for_loop.simps)

lemma main_ab:
  "snd (main disk [''logs/a.tlog'', ''b.tlog'']) = Inr (Some (''master_drone_dataset.csv'', master_ab))"
  by (simp add: main_simps concat_ab del: for_loop.simps)

lemma main_ac:
  "snd (main disk [''logs/a.tlog'', ''old/a.tlog'']) =
     Inr (Some (''master_drone_dataset.csv'', master_ac))"
  by (simp add: main_simps concat_ac del: for_loop.simps)

lemma main_cs:
  "snd (main disk [''old/a.tlog'', ''s.tlog'']) = Inr (Some (''master_drone_dataset.csv'', master_cs))"
  by (simp add: main_simps concat_cs del: for_loop.simps)

lemma main_sc:
  "snd (main disk [''s.tlog'', ''old/a.tlog'']) = Inr (Some (''master_drone_dataset.csv'', master_sc))"
  by (simp add: main_simps concat_sc del: for_loop.simps)

lemma process_unopenable:
  "fs p = Inl e \<Longrightarrow> process_single_tlog fs p = ([Parsing p, Error_opening p e], Inr None)"
  by (simp add: process_single_tlog_def)

lemma flight_unopenable: "isl (fs p) \<Longrightarrow> flight fs p = []"
  by (cases "fs p") (simp_all add: flight_def process_unopenable)

lemma for_loop_skip:
  "snd (for_loop fs (filter (\<lambda>p. \<not> isl (fs p)) files) acc) = snd (for_loop fs files acc)"
proof (induction files arbitrary: acc)
  case Nil
  then show ?case by simp
next
  case (Cons p files)
  show ?case
  proof (cases "fs p")
    case (Inl e)
    then show ?thesis
      using Cons.IH [of acc]
      by (simp add: for_loop_Cons_snd process_unopenable flight_unopenable del: for_loop.simps)
  next
    case (Inr mlog)
    then show ?thesis
      using Cons.IH [of "acc @ flight fs p"]
      by (simp add: for_loop_Cons_snd del: for_loop.simps split: sum.splits)
  qed
qed

lemma main_fst_ok:
  assumes "\<forall>p\<in>set files. \<not> isl (snd (process_single_tlog fs p))" "files \<noteq> []"
  shows "fst (main fs files) =
           Found (length files) # concat (map (\<lambda>p. fst (process_single_tlog fs p)) files) @
           (if concat (map (flight fs) files) \<noteq> []
            then [Banner, Done_processed (length (concat (map (flight fs) files))),
                  Total_data_points (length (rows (concat_frames (concat (map (flight fs) files))))),
                  Saved_to ''master_drone_dataset.csv'', Banner,
                  Head (head (concat_frames (concat (map (flight fs) files))))]
            else [Could_not_process])"
  using assms(2) for_loop_ok [OF assms(1), of "[]"]
  by (simp add: main_def Let_def)

subsection \<open>Columns\<close>

lemma filter_unique: "filter P (unique xs) = unique (filter P xs)"
proof (induction xs)
  case Nil
  then show ?case by simp
next
  case (Cons x xs)
  show ?case
  proof (cases "P x")
    case True
    have "filter P (filter (\<lambda>y. y \<noteq> x) (unique xs)) = filter (\<lambda>y. y \<noteq> x) (filter P (unique xs))"
      by (simp add: conj_commute)
    with True Cons.IH show ?thesis by simp
  next
    case False
    then have "x \<notin> set (unique (filter P xs))" by (simp add: set_unique)
    then have "filter (\<lambda>y. y \<noteq> x) (unique (filter P xs)) = unique (filter P xs)"
      by (auto simp: filter_id_conv)
    moreover have "filter P (filter (\<lambda>y. y \<noteq> x) (unique xs)) =
                   filter (\<lambda>y. y \<noteq> x) (filter P (unique xs))"
      by (simp add: conj_commute)
    ultimately show ?thesis using False Cons.IH by simp
  qed
qed



lemma unique_distinct: "distinct xs \<Longrightarrow> unique xs = xs"
  by (induction xs) (auto simp: filter_id_conv set_unique)




lemma frame_of_columns_schema: "set (columns (frame_of p ms)) \<subseteq> set schema"
proof -
  have "set (columns (frame_of p ms)) \<subseteq> set (filter (\<lambda>k. k \<noteq> ''type'') all_keys @ [''source_file''])"
    using keys_rows_subset [of ms] by (auto simp: frame_of_def)
  also have "filter (\<lambda>k. k \<noteq> ''type'') all_keys @ [''source_file''] = schema"
    by (simp add: all_keys_def schema_def tracked_fields_def)
  finally show ?thesis .
qed

lemma keys_hd:
  assumes "ms \<noteq> []"
  shows "\<exists>rest. keys (map make_row ms) = ''timestamp'' # rest"
proof -
  from assms obtain m ms' where ms: "ms = m # ms'" by (cases ms) auto
  obtain d where "make_row m = (''timestamp'', Num (timestamp m)) # d"
    by (cases m) simp_all
  then show ?thesis by (simp add: ms keys_def)
qed

lemma frame_of_columns_hd:
  assumes "ms \<noteq> []"
  shows "\<exists>rest. columns (frame_of p ms) = ''timestamp'' # rest"
proof -
  from keys_hd [OF assms] obtain rest where "keys (map make_row ms) = ''timestamp'' # rest" ..
  then show ?thesis by (simp add: frame_of_def)
qed

lemma flight_columns:
  assumes "df \<in> set (flight fs p)"
  shows "set (columns df) \<subseteq> set schema" "\<exists>rest. columns df = ''timestamp'' # rest"
    "''source_file'' \<in> set (columns df)"
proof -
  from flight_cases(1) [OF assms] obtain mlog where m: "fs p = Inr mlog"
    by (rule process_opened)
  from process_Some [OF m flight_cases(1) [OF assms]]
  have df: "df = frame_of p (tracked_msgs mlog)" and ne: "tracked_msgs mlog \<noteq> []" .
  show "set (columns df) \<subseteq> set schema" unfolding df by (rule frame_of_columns_schema)
  show "\<exists>rest. columns df = ''timestamp'' # rest" unfolding df using ne by (rule frame_of_columns_hd)
  show "''source_file'' \<in> set (columns df)" unfolding df by (simp add: frame_of_def)
qed


lemma frame_of_not_empty: "rows (frame_of p ms) \<noteq> [] \<Longrightarrow> \<not> empty (frame_of p ms)"
  by (simp add: empty_def frame_of_def)

lemma frame_of_gate:
  assumes "i < length ms" "\<exists>m\<in>set ms. f \<in> fst ` set (make_row m)"
    and "\<forall>j\<le>i. getcell (make_row (ms ! j)) f = NaN"
  shows "i \<notin> fst ` set (rows (frame_of p ms))"
proof
  assume "i \<in> fst ` set (rows (frame_of p ms))"
  then obtain r where "(i, r) \<in> set (rows (frame_of p ms))" by auto
  from frame_of_row(3) [OF this] assms(2)
  have seen: "last_observed f (take (Suc i) ms) \<noteq> NaN" by (auto simp: set_keys)
  have "\<forall>m\<in>set (take (Suc i) ms). getcell (make_row m) f = NaN"
  proof
    fix m assume "m \<in> set (take (Suc i) ms)"
    then obtain j where "j < length (take (Suc i) ms)" "take (Suc i) ms ! j = m"
      by (auto simp: in_set_conv_nth)
    with assms(1,3) show "getcell (make_row m) f = NaN" by auto
  qed
  then have "last_observed f (take (Suc i) ms) = NaN" by (rule last_observed_NaN)
  with seen show False by simp
qed

subsection \<open>Columns in order of first appearance, skipped messages, totality\<close>

lemma make_row_fields:
  "map fst (make_row m) = ''timestamp'' # ''type'' # fields_written m"
  by (cases m) (simp_all add: fields_written_def tracked_fields_def)

lemma fields_written_tracked: "set (fields_written m) \<subseteq> set tracked_fields"
  by (auto simp: fields_written_def)

lemma fields_written_plain:
  "filter (\<lambda>k. k \<noteq> ''timestamp'' \<and> k \<noteq> ''type'') (fields_written m) = fields_written m"
  using fields_written_tracked [of m]
  by (auto simp: filter_id_conv tracked_fields_def)

lemma keys_without_stamp:
  "filter (\<lambda>k. k \<noteq> ''timestamp'' \<and> k \<noteq> ''type'') (concat (map (map fst) (map make_row ms))) =
   concat (map fields_written ms)"
  by (induction ms) (simp_all add: make_row_fields fields_written_plain)

lemma keys_first_appearance:
  assumes "ms \<noteq> []"
  shows "keys (map make_row ms) = ''timestamp'' # ''type'' # first_appearance ms"
proof -
  from assms obtain m ms' where ms: "ms = m # ms'" by (cases ms) auto
  let ?K = "concat (map (map fst) (map make_row ms))"
  have K: "?K = ''timestamp'' # ''type'' # (fields_written m @ concat (map (map fst) (map make_row ms')))"
    by (simp add: ms make_row_fields)
  let ?R = "fields_written m @ concat (map (map fst) (map make_row ms'))"
  have "unique ?K =
        ''timestamp'' # ''type'' #
        filter (\<lambda>y. y \<noteq> ''timestamp'') (filter (\<lambda>y. y \<noteq> ''type'') (unique ?R))"
    unfolding K by simp
  also have "filter (\<lambda>y. y \<noteq> ''timestamp'') (filter (\<lambda>y. y \<noteq> ''type'') (unique ?R)) =
             unique (filter (\<lambda>k. k \<noteq> ''timestamp'' \<and> k \<noteq> ''type'') ?R)"
    by (simp add: filter_unique conj_commute)
  also have "filter (\<lambda>k. k \<noteq> ''timestamp'' \<and> k \<noteq> ''type'') ?R = concat (map fields_written ms)"
    using keys_without_stamp [of ms'] by (simp add: ms fields_written_plain)
  finally show ?thesis by (simp add: keys_def first_appearance_def)
qed

lemma first_appearance_tracked: "set (first_appearance ms) \<subseteq> set tracked_fields"
  using fields_written_tracked by (auto simp: first_appearance_def set_unique)

lemma frame_of_columns:
  assumes "ms \<noteq> []"
  shows "columns (frame_of p ms) = ''timestamp'' # first_appearance ms @ [''source_file'']"
proof -
  have "filter (\<lambda>k. k \<noteq> ''type'') (first_appearance ms) = first_appearance ms"
    using first_appearance_tracked [of ms] by (auto simp: filter_id_conv tracked_fields_def)
  then show ?thesis
    by (simp add: frame_of_def keys_first_appearance [OF assms])
qed

lemma frame_of_columns_distinct:
  assumes "ms \<noteq> []"
  shows "distinct (columns (frame_of p ms))"
proof -
  have "''timestamp'' \<notin> set (first_appearance ms)" "''source_file'' \<notin> set (first_appearance ms)"
    using first_appearance_tracked [of ms] by (auto simp: tracked_fields_def)
  then show ?thesis
    by (simp add: frame_of_columns [OF assms] first_appearance_def distinct_unique)
qed

lemma first_appearance_s:
  "first_appearance (tracked_msgs log_s) =
     [''voltage'', ''current'', ''battery_remaining'', ''throttle'', ''altitude'', ''groundspeed'',
      ''roll'', ''pitch'']"
  by (simp add: first_appearance_def fields_written_def tracked_fields_def log_s_def tracked_types_def)

lemma first_appearance_c:
  "first_appearance (tracked_msgs log_c) =
     [''throttle'', ''altitude'', ''groundspeed'', ''voltage'', ''current'', ''battery_remaining'',
      ''roll'', ''pitch'']"
  by (simp add: first_appearance_def fields_written_def tracked_fields_def log_c_def tracked_types_def)




lemma process_never_raises:
  assumes "\<forall>mlog e. fs q = Inr mlog \<longrightarrow> Raises e \<notin> set mlog"
  shows "\<not> isl (snd (process_single_tlog fs q))"
proof (cases "fs q")
  case (Inl e)
  then show ?thesis by (simp add: process_unopenable)
next
  case (Inr mlog)
  let ?ms = "tracked_msgs mlog"
  from assms Inr have "\<forall>e. Raises e \<notin> set mlog" by simp
  from read_loop_total [OF this, of "[]"]
  have loop: "read_loop mlog [] = Inr (map make_row ?ms)" by simp
  show ?thesis
  proof (cases "?ms = []")
    case True
    with Inr loop show ?thesis by (simp add: process_single_tlog_def)
  next
    case False
    then have "map make_row ?ms \<noteq> []" "''type'' \<in> set (keys (map make_row ?ms))"
      "''source_file'' \<notin> set (keys (map make_row ?ms))"
      by (simp_all add: keys_rows_has keys_rows_no_source)
    from process_rows [of fs q mlog "map make_row ?ms", OF Inr loop this]
    show ?thesis by simp
  qed
qed

lemma parsing_printed: "Parsing q \<in> set (fst (process_single_tlog fs q))"
  by (auto simp: process_single_tlog_def split: sum.splits)





subsection \<open>The rows of a second file\<close>

text \<open>
  In a batch of two files the rows of the second are the last rows of the written table,
  each with the cells it has in the second file's own table (NaN in a column that table
  lacks); that table is the same in every file system with the same log at that path; and
  a message of the log gives no row while some field that the log sets has had no value
  other than NaN.
\<close>

lemma second_file_keeps_its_own_cells:
  assumes "snd (main fs [A, B]) = Inr (Some (out, master))"
    and "fs B = Inr mlog" and "snd (process_single_tlog fs B) = Inr (Some dfB)"
  shows "(\<forall>k c. k < length (rows dfB) \<longrightarrow>
            cell (columns master)
              (snd (rows master ! (length (rows master) - length (rows dfB) + k))) c =
            cell (columns dfB) (snd (rows dfB ! k)) c) \<and>
         (\<forall>fs'. fs' B = fs B \<longrightarrow> process_single_tlog fs' B = process_single_tlog fs B) \<and>
         (\<forall>i f. i < length (tracked_msgs mlog) \<and>
                 (\<exists>m\<in>set (tracked_msgs mlog). f \<in> fst ` set (make_row m)) \<and>
                 (\<forall>j\<le>i. getcell (make_row (tracked_msgs mlog ! j)) f = NaN) \<longrightarrow>
                 i \<notin> fst ` set (rows dfB))"
proof -
  let ?ms = "tracked_msgs mlog"
  let ?cols = "columns master"
  have dfB: "dfB = frame_of B ?ms"
    using assms(2,3) by (rule process_Some)
  have own: "cell ?cols (snd (rows master ! (length (rows master) - length (rows dfB) + k))) c =
             cell (columns dfB) (snd (rows dfB ! k)) c"
    if k: "k < length (rows dfB)" for k c
  proof -
    from k have "rows dfB \<noteq> []" by auto
    then have "\<not> empty dfB" unfolding dfB by (rule frame_of_not_empty)
    with assms(3) have fl: "flight fs B = [dfB]" by (simp add: flight_def)
    let ?rowsA = "concat (map (\<lambda>df. map (\<lambda>(i, r). reindex (columns df) ?cols r) (rows df)) (flight fs A))"
    have master: "master = concat_frames (flight fs A @ [dfB])"
      using main_written(1) [OF assms(1)] fl by simp
    have rows: "map snd (rows master) =
                ?rowsA @ map (\<lambda>(i, r). reindex (columns dfB) ?cols r) (rows dfB)"
      using rows_concat_frames(1) [of "flight fs A @ [dfB]"] by (simp add: master)
    have "length (map snd (rows master)) = length ?rowsA + length (rows dfB)"
      by (simp only: rows length_append length_map)
    then have "length (rows master) = length ?rowsA + length (rows dfB)"
      by (simp only: length_map)
    then have pos: "length (rows master) - length (rows dfB) + k = length ?rowsA + k"
      and lt: "length ?rowsA + k < length (rows master)"
      using k by simp_all
    have "snd (rows master ! (length ?rowsA + k)) = map snd (rows master) ! (length ?rowsA + k)"
      using lt by simp
    also have "\<dots> = map (\<lambda>(i, r). reindex (columns dfB) ?cols r) (rows dfB) ! k"
      unfolding rows by (rule nth_append_length_plus)
    also have "\<dots> = reindex (columns dfB) ?cols (snd (rows dfB ! k))"
      using k by (simp add: case_prod_unfold)
    finally have "snd (rows master ! (length (rows master) - length (rows dfB) + k)) =
                  reindex (columns dfB) ?cols (snd (rows dfB ! k))"
      by (simp only: pos)
    moreover have "set (columns dfB) \<subseteq> set ?cols"
      unfolding master by (rule columns_in_master) simp
    ultimately show ?thesis by (simp add: reindex_cell_any)
  qed
  have same: "process_single_tlog fs' B = process_single_tlog fs B" if "fs' B = fs B" for fs'
    using that by (simp add: process_single_tlog_def)
  have gate: "i \<notin> fst ` set (rows dfB)"
    if "i < length ?ms" "\<exists>m\<in>set ?ms. f \<in> fst ` set (make_row m)"
      "\<forall>j\<le>i. getcell (make_row (?ms ! j)) f = NaN" for i f
    unfolding dfB using that by (rule frame_of_gate)
  show ?thesis
  proof (intro conjI allI impI)
    fix k c assume "k < length (rows dfB)"
    then show "cell ?cols (snd (rows master ! (length (rows master) - length (rows dfB) + k))) c =
               cell (columns dfB) (snd (rows dfB ! k)) c"
      by (rule own)
  next
    fix fs' assume "fs' B = fs B"
    then show "process_single_tlog fs' B = process_single_tlog fs B" by (rule same)
  next
    fix i f
    assume "i < length ?ms \<and> (\<exists>m\<in>set ?ms. f \<in> fst ` set (make_row m)) \<and>
            (\<forall>j\<le>i. getcell (make_row (?ms ! j)) f = NaN)"
    then show "i \<notin> fst ` set (rows dfB)"
      using gate [of i f] by simp
  qed
qed

section \<open>Properties of the script\<close>

subsection \<open>Forward fill\<close>

text \<open>
  C1, as the code has it. For every log that opens and every row of the table
  \<open>process_single_tlog\<close> returns for it, with index label \<open>i\<close>: the value of each
  tracked field is the value carried by the most recent tracked message at or before
  message \<open>i\<close> of the same log that carried a value other than NaN for the field (NaN,
  an absent cell, when the log has no such message). A message overwrites exactly the
  fields for which it carries a value other than NaN and leaves the others unchanged.
\<close>

theorem forward_fill_last_observed:
  assumes "fs p = Inr mlog" and "snd (process_single_tlog fs p) = Inr (Some df)"
  shows "(\<forall>(i, r)\<in>set (rows df). \<forall>f\<in>set tracked_fields.
            cell (columns df) r f = last_observed f (take (Suc i) (tracked_msgs mlog))) \<and>
         last_observed f (ms @ [m]) =
           (if getcell (make_row m) f = NaN then last_observed f ms else getcell (make_row m) f)"
proof -
  have df: "df = frame_of p (tracked_msgs mlog)"
    using assms by (rule process_Some)
  have "cell (columns df) r g = last_observed g (take (Suc i) (tracked_msgs mlog))"
    if "(i, r) \<in> set (rows df)" "g \<in> set tracked_fields" for i r g
  proof -
    from that(2) have "g \<noteq> ''type''" "g \<noteq> ''source_file''"
      by (auto simp: tracked_fields_def)
    with that(1) df show ?thesis by (simp add: frame_of_cell)
  qed
  then show ?thesis by (auto simp: last_observed_snoc)
qed

text \<open>
  The theorem at \<open>log_a\<close>: both anchors give a row, and the roll of the second row is
  the 0.1 of the first attitude message.
\<close>

theorem forward_fill_last_observed_witness:
  "disk ''logs/a.tlog'' = Inr log_a \<and>
   snd (process_single_tlog disk ''logs/a.tlog'') = Inr (Some frame_a) \<and>
   rows frame_a \<noteq> [] \<and>
   list_all (\<lambda>(i, r). list_all (\<lambda>f.
      cell (columns frame_a) r f = last_observed f (take (Suc i) (tracked_msgs log_a)))
        tracked_fields) (rows frame_a) \<and>
   last_observed ''roll'' (take (Suc 4) (tracked_msgs log_a)) = Num (1 / 10)"
proof -
  have 1: "disk ''logs/a.tlog'' = Inr log_a" by (simp add: disk_def)
  have 2: "snd (process_single_tlog disk ''logs/a.tlog'') = Inr (Some frame_a)"
    by (simp add: process_a)
  have 3: "rows frame_a \<noteq> []" by (simp add: frame_a_def)
  have 4: "last_observed ''roll'' (take (Suc 4) (tracked_msgs log_a)) = Num (1 / 10)"
    by (simp add: log_a_def tracked_types_def last_observed_def getcell_def)
  from forward_fill_last_observed [OF 1 2] 1 2 3 4 show ?thesis
    by (simp add: list_all_iff)
qed

text \<open>
  C1 as stated fails when a float payload is NaN. In \<open>log_a\<close> the most recent message
  before the second anchor that set roll carried NaN, and the row emitted for that anchor
  has roll 0.1, the value of the attitude message before it: pandas' forward fill takes a
  NaN payload for a missing cell.
\<close>

theorem forward_fill_nan_counterexample:
  "snd (process_single_tlog disk ''logs/a.tlog'') = Inr (Some frame_a) \<and>
   tracked_msgs log_a ! 4 = VFR_HUD 5 55 (Float 11) (Float 6) \<and>
   (4, [Num 5, Num (62 / 5), Num (3 / 2), Num 90, Num (1 / 10), Num (3 / 10),
        Num 55, Num 11, Num 6, Str ''a.tlog'']) \<in> set (rows frame_a) \<and>
   cell (columns frame_a)
     [Num 5, Num (62 / 5), Num (3 / 2), Num 90, Num (1 / 10), Num (3 / 10),
      Num 55, Num 11, Num 6, Str ''a.tlog''] ''roll'' = Num (1 / 10) \<and>
   most_recent_setting ''roll'' (take (Suc 4) (tracked_msgs log_a)) = Some NaN"
  by (simp add: process_a frame_a_def log_a_def tracked_types_def most_recent_setting_def
      cell_def getcell_def)

subsection \<open>Anchor rows\<close>

text \<open>
  C4. For every log that opens, the rows of the table \<open>process_single_tlog\<close> returns
  have strictly increasing index labels (so at most one row per message, in arrival
  order), each label is the position of a VFR_HUD message among the tracked messages (so
  no row for another message), and the row's timestamp is that message's timestamp.
\<close>

theorem anchor_rows_cadence:
  assumes "fs p = Inr mlog" and "snd (process_single_tlog fs p) = Inr (Some df)"
  shows "sorted_wrt (<) (map fst (rows df)) \<and>
         (\<forall>(i, r)\<in>set (rows df).
            i < length (tracked_msgs mlog) \<and>
            get_type (tracked_msgs mlog ! i) = ''VFR_HUD'' \<and>
            cell (columns df) r ''timestamp'' = Num (timestamp (tracked_msgs mlog ! i)))"
proof -
  let ?ms = "tracked_msgs mlog"
  have df: "df = frame_of p ?ms"
    using assms by (rule process_Some)
  have "cell (columns df) r ''timestamp'' = Num (timestamp (?ms ! i))"
    if "(i, r) \<in> set (rows df)" for i r
  proof -
    from that df have in_rows: "(i, r) \<in> set (rows (frame_of p ?ms))" by simp
    then have "i < length ?ms" by (rule frame_of_row)
    then have "last_observed ''timestamp'' (take (Suc i) ?ms) = Num (timestamp (?ms ! i))"
      using last_observed_at [of i ?ms "''timestamp''"] by (simp add: make_row_timestamp)
    with frame_of_cell [OF in_rows, of "''timestamp''"] df show ?thesis by simp
  qed
  then show ?thesis
    using frame_of_index [of p ?ms] frame_of_row(1,2) [of _ _ p ?ms] df by auto
qed

text \<open>The theorem at \<open>log_a\<close>, whose rows are those of the tracked messages 2 and 4.\<close>

theorem anchor_rows_cadence_witness:
  "disk ''logs/a.tlog'' = Inr log_a \<and>
   snd (process_single_tlog disk ''logs/a.tlog'') = Inr (Some frame_a) \<and>
   map fst (rows frame_a) = [2, 4] \<and>
   sorted_wrt (<) (map fst (rows frame_a)) \<and>
   list_all (\<lambda>(i, r).
      i < length (tracked_msgs log_a) \<and>
      get_type (tracked_msgs log_a ! i) = ''VFR_HUD'' \<and>
      cell (columns frame_a) r ''timestamp'' = Num (timestamp (tracked_msgs log_a ! i)))
     (rows frame_a)"
proof -
  have 1: "disk ''logs/a.tlog'' = Inr log_a" by (simp add: disk_def)
  have 2: "snd (process_single_tlog disk ''logs/a.tlog'') = Inr (Some frame_a)"
    by (simp add: process_a)
  have 3: "map fst (rows frame_a) = [2, 4]" by (simp add: frame_a_def)
  from anchor_rows_cadence [OF 1 2] 1 2 3 show ?thesis
    by (simp add: list_all_iff)
qed

subsection \<open>Provenance\<close>

text \<open>
  C10. Every row of the table returned for a path has the path's final component in
  \<open>source_file\<close>: the directory part is cut off, and the rows of two paths with the
  same final component carry the same \<open>source_file\<close>.
\<close>

theorem source_file_is_basename:
  assumes "snd (process_single_tlog fs p) = Inr (Some df)"
  shows "(\<forall>(i, r)\<in>set (rows df). cell (columns df) r ''source_file'' = Str (basename p)) \<and>
         (CHR ''/'' \<notin> set name \<longrightarrow> basename (dir @ ''/'' @ name) = name) \<and>
         (\<forall>q df'. basename q = basename p \<and> snd (process_single_tlog fs q) = Inr (Some df') \<longrightarrow>
            (\<forall>(i, r)\<in>set (rows df'). cell (columns df') r ''source_file'' = Str (basename p)))"
proof -
  have *: "cell (columns d) r ''source_file'' = Str (basename q)"
    if "snd (process_single_tlog fs q) = Inr (Some d)" "(i, r) \<in> set (rows d)" for q d i r
  proof -
    from that(1) obtain mlog where "fs q = Inr mlog" by (rule process_opened)
    from process_Some(1) [OF this that(1)] that(2) show ?thesis
      by (simp add: frame_of_source)
  qed
  show ?thesis
    using * [OF assms] * basename_join [of name dir] by (auto simp del: append.simps)
qed

text \<open>
  The theorem at \<open>logs/a.tlog\<close> and \<open>old/a.tlog\<close>: different paths and different
  logs, the same \<open>source_file\<close> in every row.
\<close>

theorem source_file_is_basename_witness:
  "snd (process_single_tlog disk ''logs/a.tlog'') = Inr (Some frame_a) \<and>
   snd (process_single_tlog disk ''old/a.tlog'') = Inr (Some frame_c) \<and>
   ''logs/a.tlog'' \<noteq> ''old/a.tlog'' \<and>
   basename ''logs/a.tlog'' = ''a.tlog'' \<and> basename ''old/a.tlog'' = ''a.tlog'' \<and>
   rows frame_a \<noteq> [] \<and> rows frame_c \<noteq> [] \<and>
   list_all (\<lambda>(i, r). cell (columns frame_a) r ''source_file'' = Str ''a.tlog'') (rows frame_a) \<and>
   list_all (\<lambda>(i, r). cell (columns frame_c) r ''source_file'' = Str ''a.tlog'') (rows frame_c)"
proof -
  have 1: "snd (process_single_tlog disk ''logs/a.tlog'') = Inr (Some frame_a)"
    by (simp add: process_a)
  have 2: "snd (process_single_tlog disk ''old/a.tlog'') = Inr (Some frame_c)"
    by (simp add: process_c)
  have 3: "basename ''logs/a.tlog'' = ''a.tlog''" "basename ''old/a.tlog'' = ''a.tlog''"
    by (simp_all add: basename_def)
  have 4: "rows frame_a \<noteq> []" "rows frame_c \<noteq> []" "''logs/a.tlog'' \<noteq> ''old/a.tlog''"
    by (simp_all add: frame_a_def frame_c_def)
  from source_file_is_basename [OF 1, of "''a.tlog''" "''logs''"] 1 2 3 4 show ?thesis
    by (simp add: list_all_iff del: append.simps)
qed

subsection \<open>Rows without every field\<close>

text \<open>
  C2 fails on the code. \<open>dropna\<close> only looks at the columns the table has, and the
  table has a column only when some message of the log wrote its key. \<open>log_b\<close> has
  a status message and an anchor and no attitude message: roll and pitch are never set,
  and yet the anchor's row is returned, without these two columns. Concatenated after the
  table of \<open>log_a\<close> the row has NaN in roll and pitch of the written table.
\<close>

theorem missing_type_rows_emitted:
  "disk ''b.tlog'' = Inr [Got (SYS_STATUS 1 11800 120 80), Got (VFR_HUD 2 40 (Float 7) (Float 3))] \<and>
   snd (process_single_tlog disk ''b.tlog'') =
     Inr (Some \<lparr>columns = [''timestamp'', ''voltage'', ''current'', ''battery_remaining'',
                            ''throttle'', ''altitude'', ''groundspeed'', ''source_file''],
                 rows = [(1, [Num 2, Num (59 / 5), Num (6 / 5), Num 80, Num 40, Num 7, Num 3,
                              Str ''b.tlog''])]\<rparr>) \<and>
   snd (main disk [''logs/a.tlog'', ''b.tlog'']) =
     Inr (Some (''master_drone_dataset.csv'', master_ab)) \<and>
   rows master_ab ! 2 =
     (2, [Num 2, Num (59 / 5), Num (6 / 5), Num 80, NaN, NaN, Num 40, Num 7, Num 3, Str ''b.tlog'']) \<and>
   cell (columns master_ab) (snd (rows master_ab ! 2)) ''roll'' = NaN \<and>
   cell (columns master_ab) (snd (rows master_ab ! 2)) ''pitch'' = NaN"
  by (simp add: disk_def log_b_def process_b frame_b_def main_ab master_ab_def cell_def getcell_def)

subsection \<open>Nothing to write\<close>



subsection \<open>Concatenation\<close>

text \<open>
  C9. When \<open>main\<close> writes a table, its rows are the rows of the per-file tables that
  are not empty, file after file in the order of the batch and in each file's own order,
  each row laid out on the columns of the written table; the index is renumbered from 0;
  the \<open>source_file\<close> column is, file after file, the final path component of the
  file, once per row; and a row has in the written table the cells it has in its file's
  table.
\<close>

theorem concatenation_in_file_order:
  assumes "snd (main fs files) = Inr (Some (out, master))"
  shows "map snd (rows master) =
           concat (map (\<lambda>p. concat (map (\<lambda>df. map (\<lambda>(i, r). reindex (columns df) (columns master) r)
                                                  (rows df)) (flight fs p))) files) \<and>
         map fst (rows master) = [0..<length (rows master)] \<and>
         map (\<lambda>(i, r). cell (columns master) r ''source_file'') (rows master) =
           concat (map (\<lambda>p. concat (map (\<lambda>df. replicate (length (rows df)) (Str (basename p)))
                                       (flight fs p))) files) \<and>
         (\<forall>p\<in>set files. \<forall>df\<in>set (flight fs p). \<forall>(i, r)\<in>set (rows df). \<forall>c.
            cell (columns master) (reindex (columns df) (columns master) r) c = cell (columns df) r c)"
proof -
  let ?dfs = "concat (map (flight fs) files)"
  let ?cols = "columns master"
  have master: "master = concat_frames ?dfs"
    using assms by (rule main_written)
  have rows: "map snd (rows master) =
      concat (map (\<lambda>p. concat (map (\<lambda>df. map (\<lambda>(i, r). reindex (columns df) ?cols r) (rows df))
                                  (flight fs p))) files)"
    unfolding master rows_concat_frames(1) by (rule concat_map_concat_map)
  have idx: "map fst (rows master) = [0..<length (rows master)]"
    unfolding master by (rule rows_concat_frames)
  have sub: "set (columns df) \<subseteq> set ?cols" if "p \<in> set files" "df \<in> set (flight fs p)" for p df
  proof -
    from that have "df \<in> set ?dfs" by auto
    then show ?thesis unfolding master by (rule columns_in_master)
  qed
  have keep: "cell ?cols (reindex (columns df) ?cols r) c = cell (columns df) r c"
    if "p \<in> set files" "df \<in> set (flight fs p)" for p df r c
    using sub [OF that] by (rule reindex_cell_any)
  have src: "map (\<lambda>r. cell ?cols r ''source_file'')
               (concat (map (\<lambda>df. map (\<lambda>(i, r). reindex (columns df) ?cols r) (rows df)) (flight fs p))) =
             concat (map (\<lambda>df. replicate (length (rows df)) (Str (basename p))) (flight fs p))"
    if p: "p \<in> set files" for p
  proof (cases "flight fs p")
    case Nil
    then show ?thesis by simp
  next
    case (Cons df rest)
    then have df: "df \<in> set (flight fs p)" by simp
    from flight_cases(3) [OF df] Cons have rest: "rest = []" by simp
    have "cell ?cols (reindex (columns df) ?cols r) ''source_file'' = Str (basename p)"
      if "(i, r) \<in> set (rows df)" for i r
    proof -
      from df obtain mlog where "df = frame_of p (tracked_msgs mlog)" by (rule flight_frame)
      with that have "cell (columns df) r ''source_file'' = Str (basename p)"
        by (simp add: frame_of_source)
      with keep [OF p df] show ?thesis by simp
    qed
    then have "map (\<lambda>r. cell ?cols r ''source_file'')
                 (map (\<lambda>(i, r). reindex (columns df) ?cols r) (rows df)) =
               map (\<lambda>x. Str (basename p)) (rows df)"
      by (auto simp: comp_def)
    then show ?thesis
      by (simp add: Cons rest map_replicate_const)
  qed
  have "map (\<lambda>(i, r). cell ?cols r ''source_file'') (rows master) =
        map (\<lambda>r. cell ?cols r ''source_file'') (map snd (rows master))"
    by (simp add: comp_def case_prod_unfold)
  also have "\<dots> = concat (map (\<lambda>p. concat (map (\<lambda>df. replicate (length (rows df)) (Str (basename p)))
                                       (flight fs p))) files)"
    unfolding rows by (rule map_concat_map_cong) (rule src)
  finally show ?thesis
    using rows idx keep by blast
qed

text \<open>The theorem at the batch \<open>logs/a.tlog\<close>, \<open>s.tlog\<close>.\<close>

theorem concatenation_in_file_order_witness:
  "snd (main disk [''logs/a.tlog'', ''s.tlog'']) =
     Inr (Some (''master_drone_dataset.csv'', master_as)) \<and>
   map snd (rows master_as) =
     map (\<lambda>(i, r). reindex (columns frame_a) (columns master_as) r) (rows frame_a) @
     map (\<lambda>(i, r). reindex (columns frame_s) (columns master_as) r) (rows frame_s) \<and>
   map fst (rows master_as) = [0, 1, 2] \<and>
   map (\<lambda>(i, r). cell (columns master_as) r ''source_file'') (rows master_as) =
     [Str ''a.tlog'', Str ''a.tlog'', Str ''s.tlog'']"
proof -
  have 1: "snd (main disk [''logs/a.tlog'', ''s.tlog'']) =
             Inr (Some (''master_drone_dataset.csv'', master_as))"
    by (rule main_as)
  have 2: "length (rows master_as) = 3" "length (rows frame_a) = 2" "length (rows frame_s) = 1"
    "basename ''logs/a.tlog'' = ''a.tlog''" "basename ''s.tlog'' = ''s.tlog''"
    by (simp_all add: master_as_def frame_a_def frame_s_def basename_def)
  from concatenation_in_file_order [OF 1] 1 show ?thesis
    by (simp add: flight_a flight_s 2 upt_rec numeral_2_eq_2)
qed

subsection \<open>Bad data inside a log\<close>




subsection \<open>Files that cannot be opened\<close>

text \<open>
  C7. A path that \<^verbatim>\<open>mavlink_connection\<close> cannot open makes
  \<open>process_single_tlog\<close> print the error and return \<open>None\<close>. What \<open>main\<close>
  writes (or the exception it ends with) for a batch is what it writes for the batch
  without the paths that cannot be opened; when \<open>main\<close> ends normally, the error
  notice of every such path of the batch is among the printed lines. And when
  \<^verbatim>\<open>recv_match\<close> raises in no log of the batch, every file of the batch is
  parsed, and \<open>main\<close> writes the concatenation of the tables of the files that
  open, in the order of the batch (nothing when they have no table that is not empty).
\<close>

theorem unopenable_files_are_skipped:
  "(fs p = Inl e \<longrightarrow> process_single_tlog fs p = ([Parsing p, Error_opening p e], Inr None)) \<and>
   snd (main fs files) = snd (main fs (filter (\<lambda>p. \<not> isl (fs p)) files)) \<and>
   (p \<in> set files \<and> fs p = Inl e \<and> \<not> isl (snd (main fs files)) \<longrightarrow>
      Error_opening p e \<in> set (fst (main fs files))) \<and>
   ((\<forall>q\<in>set files. \<forall>mlog e. fs q = Inr mlog \<longrightarrow> Raises e \<notin> set mlog) \<longrightarrow>
      snd (main fs files) =
        (if concat (map (flight fs) (filter (\<lambda>q. \<not> isl (fs q)) files)) = [] then Inr None
         else Inr (Some (''master_drone_dataset.csv'',
                concat_frames (concat (map (flight fs) (filter (\<lambda>q. \<not> isl (fs q)) files)))))) \<and>
      (\<forall>q\<in>set files. Parsing q \<in> set (fst (main fs files))))"
proof -
  have skip: "snd (main fs files) = snd (main fs (filter (\<lambda>p. \<not> isl (fs p)) files))"
    by (simp add: main_snd for_loop_skip)
  have diag: "Error_opening p e \<in> set (fst (main fs files))"
    if "p \<in> set files" "fs p = Inl e" "\<not> isl (snd (main fs files))"
  proof -
    from that(3) have ok: "\<forall>p\<in>set files. \<not> isl (snd (process_single_tlog fs p))"
      by (rule main_ok)
    from that(1) have ne: "files \<noteq> []" by auto
    from that(1,2) have "Error_opening p e \<in> set (concat (map (\<lambda>p. fst (process_single_tlog fs p)) files))"
      by (auto simp: process_unopenable intro!: bexI [of _ p])
    then show ?thesis
      unfolding main_fst_ok [OF ok ne] by simp
  qed
  have used: "snd (main fs files) =
        (if concat (map (flight fs) (filter (\<lambda>q. \<not> isl (fs q)) files)) = [] then Inr None
         else Inr (Some (''master_drone_dataset.csv'',
                concat_frames (concat (map (flight fs) (filter (\<lambda>q. \<not> isl (fs q)) files))))))"
    and parsed: "\<forall>q\<in>set files. Parsing q \<in> set (fst (main fs files))"
    if no_raise: "\<forall>q\<in>set files. \<forall>mlog e. fs q = Inr mlog \<longrightarrow> Raises e \<notin> set mlog"
  proof -
    let ?open = "filter (\<lambda>q. \<not> isl (fs q)) files"
    from no_raise have ok: "\<forall>q\<in>set files. \<not> isl (snd (process_single_tlog fs q))"
      using process_never_raises [of fs] by blast
    then have ok': "\<forall>q\<in>set ?open. \<not> isl (snd (process_single_tlog fs q))" by simp
    from for_loop_ok [OF ok', of "[]"]
    have "snd (main fs ?open) =
            (if concat (map (flight fs) ?open) = [] then Inr None
             else Inr (Some (''master_drone_dataset.csv'', concat_frames (concat (map (flight fs) ?open)))))"
      by (simp add: main_snd)
    with skip show "snd (main fs files) =
            (if concat (map (flight fs) ?open) = [] then Inr None
             else Inr (Some (''master_drone_dataset.csv'', concat_frames (concat (map (flight fs) ?open)))))"
      by simp
    show "\<forall>q\<in>set files. Parsing q \<in> set (fst (main fs files))"
    proof
      fix q assume q: "q \<in> set files"
      then have ne: "files \<noteq> []" by auto
      from q have "Parsing q \<in> set (concat (map (\<lambda>p. fst (process_single_tlog fs p)) files))"
        using parsing_printed [of q fs] by auto
      then show "Parsing q \<in> set (fst (main fs files))"
        unfolding main_fst_ok [OF ok ne] by simp
    qed
  qed
  show ?thesis
  proof (intro conjI impI)
    assume "fs p = Inl e"
    then show "process_single_tlog fs p = ([Parsing p, Error_opening p e], Inr None)"
      by (rule process_unopenable)
  next
    show "snd (main fs files) = snd (main fs (filter (\<lambda>p. \<not> isl (fs p)) files))" by (rule skip)
  next
    assume "p \<in> set files \<and> fs p = Inl e \<and> \<not> isl (snd (main fs files))"
    then show "Error_opening p e \<in> set (fst (main fs files))" using diag by simp
  next
    assume "\<forall>q\<in>set files. \<forall>mlog e. fs q = Inr mlog \<longrightarrow> Raises e \<notin> set mlog"
    then show "snd (main fs files) =
        (if concat (map (flight fs) (filter (\<lambda>q. \<not> isl (fs q)) files)) = [] then Inr None
         else Inr (Some (''master_drone_dataset.csv'',
                concat_frames (concat (map (flight fs) (filter (\<lambda>q. \<not> isl (fs q)) files))))))"
      by (rule used)
  next
    assume "\<forall>q\<in>set files. \<forall>mlog e. fs q = Inr mlog \<longrightarrow> Raises e \<notin> set mlog"
    then show "\<forall>q\<in>set files. Parsing q \<in> set (fst (main fs files))"
      by (rule parsed)
  qed
qed

text \<open>
  The theorem at three paths of which the second cannot be opened: all three are parsed,
  the error of the second is printed, and the table written is the concatenation of the
  tables of the first and the third.
\<close>

theorem unopenable_files_are_skipped_witness:
  "disk ''x.tlog'' = Inl (Exception ''cannot open'') \<and>
   process_single_tlog disk ''x.tlog'' =
     ([Parsing ''x.tlog'', Error_opening ''x.tlog'' (Exception ''cannot open'')], Inr None) \<and>
   filter (\<lambda>p. \<not> isl (disk p)) [''logs/a.tlog'', ''x.tlog'', ''s.tlog''] = [''logs/a.tlog'', ''s.tlog''] \<and>
   snd (main disk [''logs/a.tlog'', ''x.tlog'', ''s.tlog'']) = snd (main disk [''logs/a.tlog'', ''s.tlog'']) \<and>
   concat (map (flight disk) [''logs/a.tlog'', ''s.tlog'']) = [frame_a, frame_s] \<and>
   snd (main disk [''logs/a.tlog'', ''x.tlog'', ''s.tlog'']) =
     Inr (Some (''master_drone_dataset.csv'', concat_frames [frame_a, frame_s])) \<and>
   concat_frames [frame_a, frame_s] = master_as \<and>
   Parsing ''logs/a.tlog'' \<in> set (fst (main disk [''logs/a.tlog'', ''x.tlog'', ''s.tlog''])) \<and>
   Parsing ''x.tlog'' \<in> set (fst (main disk [''logs/a.tlog'', ''x.tlog'', ''s.tlog''])) \<and>
   Parsing ''s.tlog'' \<in> set (fst (main disk [''logs/a.tlog'', ''x.tlog'', ''s.tlog''])) \<and>
   Error_opening ''x.tlog'' (Exception ''cannot open'') \<in>
     set (fst (main disk [''logs/a.tlog'', ''x.tlog'', ''s.tlog'']))"
proof -
  let ?files = "[''logs/a.tlog'', ''x.tlog'', ''s.tlog'']"
  have 1: "disk ''x.tlog'' = Inl (Exception ''cannot open'')" by (simp add: disk_def)
  have 2: "filter (\<lambda>p. \<not> isl (disk p)) ?files = [''logs/a.tlog'', ''s.tlog'']"
    by (simp add: disk_def)
  have 3: "\<forall>q\<in>set ?files. \<forall>mlog e. disk q = Inr mlog \<longrightarrow> Raises e \<notin> set mlog"
    by (simp add: disk_def log_a_def log_s_def)
  have 4: "concat (map (flight disk) [''logs/a.tlog'', ''s.tlog'']) = [frame_a, frame_s]"
    by (simp add: flight_a flight_s)
  note t = unopenable_files_are_skipped [of disk "''x.tlog''" "Exception ''cannot open''" ?files]
  from t 1 have 5: "process_single_tlog disk ''x.tlog'' =
      ([Parsing ''x.tlog'', Error_opening ''x.tlog'' (Exception ''cannot open'')], Inr None)"
    by simp
  from t have 6: "snd (main disk ?files) = snd (main disk [''logs/a.tlog'', ''s.tlog''])"
    unfolding 2 by (elim conjE)
  from t 3 have used: "snd (main disk ?files) =
        (if concat (map (flight disk) (filter (\<lambda>q. \<not> isl (disk q)) ?files)) = [] then Inr None
         else Inr (Some (''master_drone_dataset.csv'',
                concat_frames (concat (map (flight disk) (filter (\<lambda>q. \<not> isl (disk q)) ?files))))))"
    and parsed: "\<forall>q\<in>set ?files. Parsing q \<in> set (fst (main disk ?files))"
    by blast+
  from used have 7: "snd (main disk ?files) =
      Inr (Some (''master_drone_dataset.csv'', concat_frames [frame_a, frame_s]))"
    unfolding 2 4 by simp
  from parsed have 8: "Parsing ''logs/a.tlog'' \<in> set (fst (main disk ?files))"
    "Parsing ''x.tlog'' \<in> set (fst (main disk ?files))"
    "Parsing ''s.tlog'' \<in> set (fst (main disk ?files))"
    by simp_all
  from 7 have "\<not> isl (snd (main disk ?files))" by simp
  with t 1 have 9: "Error_opening ''x.tlog'' (Exception ''cannot open'') \<in> set (fst (main disk ?files))"
    by simp
  note 10 = concat_as
  show ?thesis
    by (intro conjI) (fact 1 2 4 5 6 7 8 9 10)+
qed

subsection \<open>Columns of the written table\<close>

text \<open>
  C5, as the code has it. No schema fixes the columns: they are the keys of the row
  dictionaries in order of first appearance. When \<open>main\<close> writes a table, its columns
  are distinct names among the ten the specification lists, with \<open>timestamp\<close> first
  and \<open>source_file\<close> among them; and when the first file of the batch that gives a
  table that is not empty sets all eight tracked fields, the columns are exactly
  \<open>timestamp\<close>, then the eight fields in the order in which they first appear in the
  tracked messages of that file, then \<open>source_file\<close>.
\<close>

theorem columns_follow_first_arrival:
  assumes "snd (main fs files) = Inr (Some (out, master))"
  shows "distinct (columns master) \<and> set (columns master) \<subseteq> set schema \<and>
         hd (columns master) = ''timestamp'' \<and> ''source_file'' \<in> set (columns master) \<and>
         (\<forall>pre p rest mlog.
            files = pre @ p # rest \<and> (\<forall>q\<in>set pre. flight fs q = []) \<and> flight fs p \<noteq> [] \<and>
            fs p = Inr mlog \<and> set tracked_fields \<subseteq> set (first_appearance (tracked_msgs mlog))
            \<longrightarrow> columns master =
                  ''timestamp'' # first_appearance (tracked_msgs mlog) @ [''source_file''])"
proof -
  let ?dfs = "concat (map (flight fs) files)"
  have master: "columns master = unique (concat (map columns ?dfs))"
    using main_written(1) [OF assms] by (simp add: columns_concat_frames)
  have ne: "?dfs \<noteq> []" using assms by (rule main_written)
  have sub: "set (columns df) \<subseteq> set schema" if "df \<in> set ?dfs" for df
    using that flight_columns(1) by auto
  have 1: "distinct (columns master)" unfolding master by (rule distinct_unique)
  have 2: "set (columns master) \<subseteq> set schema"
    unfolding master using sub by (auto simp: set_unique)
  from ne obtain df dfs' where dfs: "?dfs = df # dfs'" by (cases ?dfs) auto
  then have "df \<in> set ?dfs" by simp
  then obtain p where "df \<in> set (flight fs p)" by auto
  from flight_columns(2,3) [OF this] obtain rest
    where cols: "columns df = ''timestamp'' # rest" and sf: "''source_file'' \<in> set (columns df)"
    by blast
  have 3: "hd (columns master) = ''timestamp''"
    unfolding master dfs by (simp add: cols)
  have 4: "''source_file'' \<in> set (columns master)"
    unfolding master dfs using sf by (simp add: set_unique)
  have 5: "columns master = ''timestamp'' # first_appearance (tracked_msgs mlog) @ [''source_file'']"
    if "files = pre @ p # rest" "\<forall>q\<in>set pre. flight fs q = []" "flight fs p \<noteq> []"
      "fs p = Inr mlog" "set tracked_fields \<subseteq> set (first_appearance (tracked_msgs mlog))"
    for pre p rest mlog
  proof -
    let ?ms = "tracked_msgs mlog"
    let ?cols = "''timestamp'' # first_appearance ?ms @ [''source_file'']"
    from that(3) obtain d where d: "d \<in> set (flight fs p)" by (cases "flight fs p") auto
    from process_Some [OF that(4) flight_cases(1) [OF d]]
    have deq: "d = frame_of p ?ms" and mne: "?ms \<noteq> []" .
    have cd: "columns d = ?cols"
      unfolding deq using mne by (rule frame_of_columns)
    have dist: "distinct (columns d)"
      unfolding deq using mne by (rule frame_of_columns_distinct)
    from that(5) have all: "set schema \<subseteq> set (columns d)"
      unfolding cd by (auto simp: schema_def)
    from that(2) have "concat (map (flight fs) pre) = []" by simp
    then have "?dfs = d # concat (map (flight fs) rest)"
      using that(1) flight_cases(3) [OF d] by simp
    then have "columns master =
        unique (columns d @ concat (map columns (concat (map (flight fs) rest))))"
      unfolding master by simp
    also have "\<dots> = unique (columns d) @
        filter (\<lambda>y. y \<notin> set (columns d))
          (unique (concat (map columns (concat (map (flight fs) rest)))))"
      by (rule unique_append)
    also have "filter (\<lambda>y. y \<notin> set (columns d))
        (unique (concat (map columns (concat (map (flight fs) rest))))) = []"
    proof -
      have "x \<in> set (columns d)"
        if "q \<in> set rest" "df' \<in> set (flight fs q)" "x \<in> set (columns df')" for q df' x
        using flight_columns(1) [OF that(2)] that(3) all by blast
      then show ?thesis
        by (auto simp: filter_empty_conv set_unique)
    qed
    also have "unique (columns d) = columns d"
      using dist by (rule unique_distinct)
    finally show ?thesis by (simp add: cd)
  qed
  show ?thesis
  proof (intro conjI allI impI)
    fix pre p rest mlog
    assume "files = pre @ p # rest \<and> (\<forall>q\<in>set pre. flight fs q = []) \<and> flight fs p \<noteq> [] \<and>
            fs p = Inr mlog \<and> set tracked_fields \<subseteq> set (first_appearance (tracked_msgs mlog))"
    then show "columns master = ''timestamp'' # first_appearance (tracked_msgs mlog) @ [''source_file'']"
      using 5 [of pre p rest mlog] by simp
  qed (fact 1 2 3 4)+
qed

text \<open>
  The theorem at the batch \<open>n.tlog\<close>, \<open>old/a.tlog\<close>, \<open>s.tlog\<close>: the first file
  gives no row, the second starts with an anchor, and the anchor's fields come first
  after \<open>timestamp\<close>.
\<close>

theorem columns_follow_first_arrival_witness:
  "snd (main disk [''n.tlog'', ''old/a.tlog'', ''s.tlog'']) =
     Inr (Some (''master_drone_dataset.csv'', master_cs)) \<and>
   flight disk ''n.tlog'' = [] \<and> flight disk ''old/a.tlog'' \<noteq> [] \<and>
   disk ''old/a.tlog'' = Inr log_c \<and>
   first_appearance (tracked_msgs log_c) =
     [''throttle'', ''altitude'', ''groundspeed'', ''voltage'', ''current'', ''battery_remaining'',
      ''roll'', ''pitch''] \<and>
   distinct (columns master_cs) \<and> set (columns master_cs) \<subseteq> set schema \<and>
   hd (columns master_cs) = ''timestamp'' \<and> ''source_file'' \<in> set (columns master_cs) \<and>
   columns master_cs = ''timestamp'' # first_appearance (tracked_msgs log_c) @ [''source_file''] \<and>
   columns master_cs =
     [''timestamp'', ''throttle'', ''altitude'', ''groundspeed'', ''voltage'', ''current'',
      ''battery_remaining'', ''roll'', ''pitch'', ''source_file'']"
proof -
  have 1: "snd (main disk [''n.tlog'', ''old/a.tlog'', ''s.tlog'']) =
             Inr (Some (''master_drone_dataset.csv'', master_cs))"
    by (simp add: main_simps concat_cs del: for_loop.simps)
  have 2: "flight disk ''n.tlog'' = []" "flight disk ''old/a.tlog'' \<noteq> []"
    "disk ''old/a.tlog'' = Inr log_c"
    by (simp_all add: flight_n flight_c disk_def)
  note 3 = first_appearance_c
  have 4: "set tracked_fields \<subseteq> set (first_appearance (tracked_msgs log_c))"
    unfolding 3 by (simp add: tracked_fields_def)
  note t = columns_follow_first_arrival [OF 1]
  from t have 5: "distinct (columns master_cs)" "set (columns master_cs) \<subseteq> set schema"
    "hd (columns master_cs) = ''timestamp''" "''source_file'' \<in> set (columns master_cs)"
    by simp_all
  from t have "\<forall>pre p rest mlog.
      [''n.tlog'', ''old/a.tlog'', ''s.tlog''] = pre @ p # rest \<and>
      (\<forall>q\<in>set pre. flight disk q = []) \<and> flight disk p \<noteq> [] \<and> disk p = Inr mlog \<and>
      set tracked_fields \<subseteq> set (first_appearance (tracked_msgs mlog)) \<longrightarrow>
      columns master_cs = ''timestamp'' # first_appearance (tracked_msgs mlog) @ [''source_file'']"
    by (elim conjE)
  from this [rule_format, of "[''n.tlog'']" "''old/a.tlog''" "[''s.tlog'']" log_c] 2 4
  have 6: "columns master_cs =
           ''timestamp'' # first_appearance (tracked_msgs log_c) @ [''source_file'']"
    by simp
  have 7: "columns master_cs =
     [''timestamp'', ''throttle'', ''altitude'', ''groundspeed'', ''voltage'', ''current'',
      ''battery_remaining'', ''roll'', ''pitch'', ''source_file'']"
    by (simp add: master_cs_def)
  show ?thesis
    by (intro conjI) (fact 1 2 3 5 6 7)+
qed

text \<open>
  C5 as stated fails: for the batch \<open>old/a.tlog\<close>, \<open>s.tlog\<close> the anchor's fields
  come before the status fields in the written table, which is not the listed order.
\<close>

theorem column_order_counterexample:
  "disk ''old/a.tlog'' = Inr log_c \<and> disk ''s.tlog'' = Inr log_s \<and>
   snd (main disk [''old/a.tlog'', ''s.tlog'']) =
     Inr (Some (''master_drone_dataset.csv'', master_cs)) \<and>
   columns master_cs =
     [''timestamp'', ''throttle'', ''altitude'', ''groundspeed'', ''voltage'', ''current'',
      ''battery_remaining'', ''roll'', ''pitch'', ''source_file''] \<and>
   schema =
     [''timestamp'', ''voltage'', ''current'', ''battery_remaining'', ''throttle'', ''altitude'',
      ''groundspeed'', ''roll'', ''pitch'', ''source_file''] \<and>
   columns master_cs \<noteq> schema"
  by (simp add: disk_def main_cs master_cs_def schema_def tracked_fields_def)

subsection \<open>An anchor in a file that never sets the other fields\<close>

text \<open>
  C3 fails on the code in its last clause, by the defect of C2. \<open>v.tlog\<close> holds one
  anchor and no message that sets voltage, current, battery_remaining, roll or pitch.
  Processed after \<open>logs/a.tlog\<close>, which has set every field, its anchor is not
  dropped: \<open>process_single_tlog\<close> returns its row, and the written table has it as
  third row. The row is not filled from the first file either: its voltage, current,
  battery_remaining, roll and pitch are NaN, next to the 12.4 volts of the row before.
\<close>

theorem anchor_only_file_row_emitted:
  "disk ''v.tlog'' = Inr [Got (VFR_HUD 1 30 (Float 2) (Float 1))] \<and>
   snd (process_single_tlog disk ''v.tlog'') =
     Inr (Some \<lparr>columns = [''timestamp'', ''throttle'', ''altitude'', ''groundspeed'',
                            ''source_file''],
                 rows = [(0, [Num 1, Num 30, Num 2, Num 1, Str ''v.tlog''])]\<rparr>) \<and>
   snd (main disk [''logs/a.tlog'', ''v.tlog'']) =
     Inr (Some (''master_drone_dataset.csv'', master_av)) \<and>
   rows master_av ! 2 =
     (2, [Num 1, NaN, NaN, NaN, NaN, NaN, Num 30, Num 2, Num 1, Str ''v.tlog'']) \<and>
   cell (columns master_av) (snd (rows master_av ! 2)) ''voltage'' = NaN \<and>
   cell (columns master_av) (snd (rows master_av ! 2)) ''roll'' = NaN \<and>
   cell (columns master_av) (snd (rows master_av ! 1)) ''voltage'' = Num (62 / 5)"
  by (simp add: disk_def log_v_def process_v frame_v_def main_av master_av_def cell_def getcell_def)

end
